theory Spec2Isabelle
  imports Complex_Main "HOL-Library.Word" "HOL-Library.Sublist" "HOL-Library.Product_Lexorder"
begin

chapter \<open>The local retrieval engine of document-chatbot-ai\<close>

text \<open>
  A shallow embedding of \<^verbatim>\<open>utils/local-rag.ts\<close> (similarity, ranking, the index
  store), \<^verbatim>\<open>scripts/ingest-data.ts\<close> (the chunker and the ingestion run) and
  \<^verbatim>\<open>pages/api/chat.ts\<close> (the cached query embedding).

  Conventions of the embedding.
  \<^item> A JavaScript \<^verbatim>\<open>number\<close> that holds a vector component, a score or a field of
    the index is an IEEE 754 double (type \<open>number\<close> below), with its rounding, its
    infinities, its two zeros and \<^verbatim>\<open>NaN\<close>. A \<^verbatim>\<open>number\<close> that holds a length, a
    position in a string or a count is an \<^typ>\<open>int\<close>.
  \<^item> A JavaScript string is a list of UTF-16 code units.
  \<^item> A thrown exception or rejected promise is the \<open>Inl\<close> of a sum type.
\<close>

section \<open>The embedding\<close>

subsection \<open>Strings and arrays\<close>

text \<open>
  A string is its sequence of UTF-16 code units. \<open>ofAscii\<close> writes a string of ASCII
  characters as code units; it is used for the examples only.
\<close>

type_synonym jsString = "16 word list"

definition ofAscii :: "string \<Rightarrow> jsString" where
  "ofAscii s = map of_char s"

text \<open>
  \<^verbatim>\<open>slice(start, end)\<close> of arrays and of strings, for integer arguments: a negative
  argument counts from the end, both are clamped to the length, and an end before the
  start gives the empty result.
\<close>

definition slice :: "'a list \<Rightarrow> int \<Rightarrow> int \<Rightarrow> 'a list" where
  "slice xs start stop =
     (let len = int (length xs);
          k = (if start < 0 then max (len + start) 0 else min start len);
          final = (if stop < 0 then max (len + stop) 0 else min stop len)
      in take (nat (final - k)) (drop (nat k) xs))"

subsection \<open>Numbers\<close>

text \<open>
  A \<^verbatim>\<open>number\<close> is an IEEE 754 binary64 value: not a number, an infinity, or a finite
  value. \<open>Finite r\<close> is the double of real value \<open>r\<close>, \<open>Finite 0\<close> being the positive
  zero, and \<open>NegZero\<close> is the negative zero.
\<close>

datatype number = NaN | PosInf | NegInf | NegZero | Finite real

text \<open>
  Rounding to the nearest double, ties to the even significand. A double has 53
  significant bits and an exponent of at least \<open>-1022\<close>: the doubles around a real \<open>x\<close>
  whose binary exponent is \<open>e\<close> are the multiples of \<open>2 powi (e - 52)\<close>, and of
  \<open>2 powi (- 1074)\<close> below \<open>2 powi (- 1022)\<close>. A value that rounds to \<open>2 ^ 1024\<close> or more
  overflows to an infinity; a value that rounds to zero keeps its sign.
\<close>

definition binade :: "real \<Rightarrow> int" where
  "binade x = max \<lfloor>log 2 \<bar>x\<bar>\<rfloor> (- 1022)"

definition quantum :: "real \<Rightarrow> real" where
  "quantum x = 2 powi (binade x - 52)"

definition roundHalfEven :: "real \<Rightarrow> int" where
  "roundHalfEven y =
     (let f = \<lfloor>y\<rfloor>
      in if y - of_int f < 1 / 2 then f
         else if 1 / 2 < y - of_int f then f + 1
         else if even f then f else f + 1)"

definition roundNearest :: "real \<Rightarrow> number" where
  "roundNearest x =
     (let r = of_int (roundHalfEven (\<bar>x\<bar> / quantum x)) * quantum x
      in if 2 ^ 1024 \<le> r then (if x < 0 then NegInf else PosInf)
         else if r = 0 then (if x < 0 then NegZero else Finite 0)
         else Finite (if x < 0 then - r else r))"

text \<open>
  The arithmetic of the language on numbers: \<^verbatim>\<open>-x\<close>, \<^verbatim>\<open>x + y\<close>, \<^verbatim>\<open>x - y\<close>,
  \<^verbatim>\<open>x * y\<close>, \<^verbatim>\<open>x / y\<close> and \<^verbatim>\<open>Math.sqrt(x)\<close>. Each is the exact result rounded, with
  the cases of IEEE 754 for \<^verbatim>\<open>NaN\<close>, the infinities and the zeros: a \<^verbatim>\<open>NaN\<close> operand gives
  \<^verbatim>\<open>NaN\<close>, as do \<open>\<infinity> - \<infinity>\<close>, \<open>0 * \<infinity>\<close>, \<open>0 / 0\<close>, \<open>\<infinity> / \<infinity>\<close> and the root of a
  negative number; an exact zero sum is \<open>+0\<close> unless both operands are \<open>-0\<close>; the sign of
  a product or quotient is the exclusive or of the signs.
\<close>

definition isFinite :: "number \<Rightarrow> bool" where
  "isFinite x = (case x of Finite _ \<Rightarrow> True | NegZero \<Rightarrow> True | _ \<Rightarrow> False)"

definition isZero :: "number \<Rightarrow> bool" where
  "isZero x \<longleftrightarrow> x = Finite 0 \<or> x = NegZero"

definition valueOf :: "number \<Rightarrow> real" where
  "valueOf x = (case x of Finite r \<Rightarrow> r | _ \<Rightarrow> 0)"

definition signBit :: "number \<Rightarrow> bool" where
  "signBit x = (case x of Finite r \<Rightarrow> r < 0 | NegZero \<Rightarrow> True | NegInf \<Rightarrow> True | _ \<Rightarrow> False)"

definition signedZero :: "bool \<Rightarrow> number" where
  "signedZero negative = (if negative then NegZero else Finite 0)"

definition signedInf :: "bool \<Rightarrow> number" where
  "signedInf negative = (if negative then NegInf else PosInf)"

definition numNeg :: "number \<Rightarrow> number" where
  "numNeg x =
     (case x of
        NaN \<Rightarrow> NaN | PosInf \<Rightarrow> NegInf | NegInf \<Rightarrow> PosInf | NegZero \<Rightarrow> Finite 0
      | Finite r \<Rightarrow> if r = 0 then NegZero else Finite (- r))"

definition numAdd :: "number \<Rightarrow> number \<Rightarrow> number" where
  "numAdd x y =
     (if x = NaN \<or> y = NaN then NaN
      else if x = PosInf then (if y = NegInf then NaN else PosInf)
      else if x = NegInf then (if y = PosInf then NaN else NegInf)
      else if y = PosInf \<or> y = NegInf then y
      else if valueOf x + valueOf y = 0 then signedZero (x = NegZero \<and> y = NegZero)
      else roundNearest (valueOf x + valueOf y))"

definition numSub :: "number \<Rightarrow> number \<Rightarrow> number" where
  "numSub x y = numAdd x (numNeg y)"

definition numMul :: "number \<Rightarrow> number \<Rightarrow> number" where
  "numMul x y =
     (if x = NaN \<or> y = NaN then NaN
      else if \<not> isFinite x \<or> \<not> isFinite y then
        (if isZero x \<or> isZero y then NaN else signedInf (signBit x \<noteq> signBit y))
      else if valueOf x * valueOf y = 0 then signedZero (signBit x \<noteq> signBit y)
      else roundNearest (valueOf x * valueOf y))"

definition numDiv :: "number \<Rightarrow> number \<Rightarrow> number" where
  "numDiv x y =
     (if x = NaN \<or> y = NaN then NaN
      else if \<not> isFinite x then
        (if \<not> isFinite y then NaN else signedInf (signBit x \<noteq> signBit y))
      else if \<not> isFinite y then signedZero (signBit x \<noteq> signBit y)
      else if isZero y then
        (if isZero x then NaN else signedInf (signBit x \<noteq> signBit y))
      else if isZero x then signedZero (signBit x \<noteq> signBit y)
      else roundNearest (valueOf x / valueOf y))"

definition Math_sqrt :: "number \<Rightarrow> number" where
  "Math_sqrt x =
     (case x of
        NaN \<Rightarrow> NaN | PosInf \<Rightarrow> PosInf | NegInf \<Rightarrow> NaN | NegZero \<Rightarrow> NegZero
      | Finite r \<Rightarrow> if r < 0 then NaN else if r = 0 then Finite 0 else roundNearest (sqrt r))"

text \<open>
  A number is falsy (\<^verbatim>\<open>!x\<close> holds) when it is \<^verbatim>\<open>NaN\<close> or a zero. \<open>isPositive\<close> is
  \<^verbatim>\<open>x > 0\<close>.
\<close>

definition truthy :: "number \<Rightarrow> bool" where
  "truthy x \<longleftrightarrow> x \<noteq> NaN \<and> \<not> isZero x"

definition isPositive :: "number \<Rightarrow> bool" where
  "isPositive v = (case v of PosInf \<Rightarrow> True | Finite r \<Rightarrow> 0 < r | _ \<Rightarrow> False)"

text \<open>The number of a length or an index.\<close>

definition ofNat :: "nat \<Rightarrow> number" where
  "ofNat n = Finite (real n)"

text \<open>
  \<^verbatim>\<open>Array.prototype.sort(comparefn)\<close> is a stable sort: \<open>x\<close> ends after \<open>y\<close> when
  \<open>comparefn x y\<close> is positive, and elements the comparator does not order (the result is
  zero, or \<^verbatim>\<open>NaN\<close>, which the sort reads as zero) keep their relative position. Any
  stable sort gives the same result for a comparator that is consistent; the model is
  the stable insertion sort.
\<close>

fun insertSorted :: "('a \<Rightarrow> 'a \<Rightarrow> number) \<Rightarrow> 'a \<Rightarrow> 'a list \<Rightarrow> 'a list" where
  "insertSorted cmp x [] = [x]"
| "insertSorted cmp x (y # ys) =
     (if isPositive (cmp x y) then y # insertSorted cmp x ys else x # y # ys)"

definition array_sort :: "('a \<Rightarrow> 'a \<Rightarrow> number) \<Rightarrow> 'a list \<Rightarrow> 'a list" where
  "array_sort cmp xs = foldr (insertSorted cmp) xs []"

subsection \<open>Similarity (utils/local-rag.ts)\<close>

text \<open>
  \<^verbatim>\<open>dotProduct\<close> adds \<^verbatim>\<open>a[i] * b[i]\<close> to \<^verbatim>\<open>total\<close> for \<^verbatim>\<open>i\<close> below the shorter length,
  starting from 0; \<^verbatim>\<open>magnitude\<close> is the root of the sum of the squares of the whole
  vector, added in the same way; \<^verbatim>\<open>cosineSimilarity\<close> returns 0 when either magnitude is
  falsy (\<^verbatim>\<open>!magA || !magB\<close>) and the quotient otherwise.
\<close>

definition dotProduct :: "number list \<Rightarrow> number list \<Rightarrow> number" where
  "dotProduct a b =
     (let size = min (length a) (length b)
      in fold (\<lambda>i total. numAdd total (numMul (a ! i) (b ! i))) [0..<size] (Finite 0))"

definition magnitude :: "number list \<Rightarrow> number" where
  "magnitude values = Math_sqrt (fold (\<lambda>v total. numAdd total (numMul v v)) values (Finite 0))"

definition cosineSimilarity :: "number list \<Rightarrow> number list \<Rightarrow> number" where
  "cosineSimilarity a b =
     (let magA = magnitude a; magB = magnitude b
      in if \<not> truthy magA \<or> \<not> truthy magB then Finite 0
         else numDiv (dotProduct a b) (numMul magA magB))"

subsection \<open>The index and its ranking (utils/local-rag.ts)\<close>

text \<open>
  The field \<^verbatim>\<open>id\<close> of an item is \<open>item_id\<close> here, and the fields of its metadata carry
  the prefix \<open>md_\<close>.
\<close>

record itemMetadata =
  md_text :: jsString
  md_source :: jsString
  md_chunk :: number

record LocalIndexItem =
  item_id :: jsString
  embedding :: "number list"
  metadata :: itemMetadata

record LocalIndex =
  embeddingModel :: jsString
  dimension :: number
  createdAt :: jsString
  items :: "LocalIndexItem list"

text \<open>
  \<^verbatim>\<open>searchLocalIndex(index, queryEmbedding, topK = 4)\<close>: the third argument is optional,
  \<open>None\<close> is the call that leaves it out.
\<close>

record scoredEntry =
  item :: LocalIndexItem
  score :: number

definition searchLocalIndex ::
  "LocalIndex \<Rightarrow> number list \<Rightarrow> int option \<Rightarrow> LocalIndexItem list" where
  "searchLocalIndex index queryEmbedding topK_arg =
     (let topK = (case topK_arg of None \<Rightarrow> 4 | Some k \<Rightarrow> k);
          scored = map (\<lambda>it. \<lparr>item = it, score = cosineSimilarity queryEmbedding (embedding it)\<rparr>)
                     (items index);
          ranked = array_sort (\<lambda>a b. numSub (score b) (score a)) scored
      in map item (slice ranked 0 topK))"

subsection \<open>The chunker (scripts/ingest-data.ts)\<close>

text \<open>
  \<^verbatim>\<open>\s\<close> of a regular expression and \<^verbatim>\<open>trim\<close> agree on what white space is: the
  white space and line terminator code points of ECMAScript.
\<close>

definition isWhiteSpace :: "16 word \<Rightarrow> bool" where
  "isWhiteSpace c \<longleftrightarrow>
     c \<in> {0x0009, 0x000A, 0x000B, 0x000C, 0x000D, 0x0020, 0x00A0, 0x1680,
          0x2028, 0x2029, 0x202F, 0x205F, 0x3000, 0xFEFF}
     \<or> (0x2000 \<le> c \<and> c \<le> 0x200A)"

function replaceWhitespaceRuns :: "jsString \<Rightarrow> jsString" where
  "replaceWhitespaceRuns [] = []"
| "replaceWhitespaceRuns (c # cs) =
     (if isWhiteSpace c then 0x0020 # replaceWhitespaceRuns (dropWhile isWhiteSpace cs)
      else c # replaceWhitespaceRuns cs)"
  by pat_completeness auto
termination
  by (relation "measure length") (simp_all add: length_dropWhile_le less_Suc_eq_le)

definition trim :: "jsString \<Rightarrow> jsString" where
  "trim s = rev (dropWhile isWhiteSpace (rev (dropWhile isWhiteSpace s)))"

definition normalizeText :: "jsString \<Rightarrow> jsString" where
  "normalizeText text = trim (replaceWhitespaceRuns text)"

text \<open>
  The \<^verbatim>\<open>while\<close> loop of \<^verbatim>\<open>splitText\<close>, with the array \<^verbatim>\<open>chunks\<close> it pushes to
  as an accumulator. For an overlap that is not below the chunk size the loop would not
  end, so the loop is a partial function: \<open>None\<close> is not returning.
\<close>

partial_function (option) splitLoop ::
  "jsString \<Rightarrow> int \<Rightarrow> int \<Rightarrow> int \<Rightarrow> jsString list \<Rightarrow> jsString list option" where
  "splitLoop normalized chunkSize overlap start chunks =
     (if start < int (length normalized) then
        (let stop = min (start + chunkSize) (int (length normalized));
             chunks' = chunks @ [slice normalized start stop]
         in if stop = int (length normalized) then Some chunks'
            else splitLoop normalized chunkSize overlap (stop - overlap) chunks')
      else Some chunks)"

declare splitLoop.simps [code]

definition splitText :: "jsString \<Rightarrow> int \<Rightarrow> int \<Rightarrow> jsString list option" where
  "splitText text chunkSize chunkOverlap =
     (let normalized = normalizeText text
      in if normalized = [] then Some []
         else (let overlap = min (max chunkOverlap 0) (chunkSize - 1)
               in splitLoop normalized chunkSize overlap 0 []))"

subsection \<open>Errors\<close>

text \<open>
  What the code throws. An \<^verbatim>\<open>ApiError\<close> carries its HTTP status; \<open>Error\<close> is a plain
  \<^verbatim>\<open>Error\<close>; \<open>SyntaxError\<close> is what \<^verbatim>\<open>JSON.parse\<close> and \<^verbatim>\<open>response.json()\<close> throw on
  text that is not JSON; \<open>FsError\<close> is an error of \<^verbatim>\<open>node:fs\<close> with its \<^verbatim>\<open>code\<close>. The
  text of a message is kept as a constructor with the values the template string
  interpolates.
\<close>

datatype message =
    CouldNotConnect jsString
  | FailedToCreateEmbedding int jsString
  | OllamaEmbeddingFailed int jsString
  | NoEmbeddingVector
  | NoPdfFilesFound
  | FailedToLoadPdfParse
  | NoTextChunks

datatype errno = ENOENT | ENOTDIR | EISDIR | EACCES | EEXIST

datatype error =
    ApiError message int
  | Error message
  | SyntaxError
  | FsError errno

subsection \<open>The embedding client (pages/api/chat.ts, scripts/ingest-data.ts)\<close>

text \<open>
  The outcome of \<^verbatim>\<open>fetch\<close>: the promise is rejected (with the message of the error), or
  there is a response, with its \<^verbatim>\<open>ok\<close> flag, its \<^verbatim>\<open>status\<close>, its body as text and its
  body read by \<^verbatim>\<open>response.json()\<close> (\<open>None\<close> when the body is not JSON). The JSON body
  has the type the code casts it to: optional \<^verbatim>\<open>embeddings\<close> (a list of vectors) and
  optional \<^verbatim>\<open>embedding\<close> (a vector), here \<open>embedding_field\<close>. An array is truthy, so
  \<^verbatim>\<open>data.embeddings[0]\<close> is truthy when the list has a first vector, and \<^verbatim>\<open>!embedding\<close>
  holds when there is none. The network is the function \<open>fetch\<close> from the input sent to
  the outcome; the cache is passed in and returned.
\<close>

record embedData =
  embeddings :: "number list list option"
  embedding_field :: "number list option"

record response =
  resp_ok :: bool
  resp_status :: int
  resp_text :: jsString
  resp_json :: "embedData option"

datatype fetchResult = Rejected jsString | Responded response

type_synonym embeddingCache = "jsString \<rightharpoonup> number list"

definition embedQuery ::
  "(jsString \<Rightarrow> fetchResult) \<Rightarrow> embeddingCache \<Rightarrow> jsString
     \<Rightarrow> (error + number list) \<times> embeddingCache" where
  "embedQuery fetch embeddingCache input =
     (case embeddingCache input of
        Some cached \<Rightarrow> (Inr cached, embeddingCache)
      | None \<Rightarrow>
         (case fetch input of
            Rejected details \<Rightarrow> (Inl (ApiError (CouldNotConnect details) 503), embeddingCache)
          | Responded response \<Rightarrow>
             if \<not> resp_ok response then
               (Inl (ApiError (FailedToCreateEmbedding (resp_status response)
                                 (slice (resp_text response) 0 300))
                       (resp_status response)),
                embeddingCache)
             else
               (case resp_json response of
                  None \<Rightarrow> (Inl SyntaxError, embeddingCache)
                | Some data \<Rightarrow>
                   (let embedding =
                          (case embeddings data of
                             Some (first # _) \<Rightarrow> Some first
                           | _ \<Rightarrow> embedding_field data)
                    in case embedding of
                         None \<Rightarrow> (Inl (ApiError NoEmbeddingVector 500), embeddingCache)
                       | Some v \<Rightarrow> (Inr v, embeddingCache(input \<mapsto> v))))))"

definition embedText :: "(jsString \<Rightarrow> fetchResult) \<Rightarrow> jsString \<Rightarrow> error + number list" where
  "embedText fetch text =
     (case fetch text of
        Rejected details \<Rightarrow> Inl (Error (CouldNotConnect details))
      | Responded response \<Rightarrow>
         if \<not> resp_ok response then
           Inl (Error (OllamaEmbeddingFailed (resp_status response)
                         (slice (resp_text response) 0 300)))
         else
           (case resp_json response of
              None \<Rightarrow> Inl SyntaxError
            | Some data \<Rightarrow>
               (case embeddings data of
                  Some (first # _) \<Rightarrow> Inr first
                | _ \<Rightarrow>
                   (case embedding_field data of
                      Some v \<Rightarrow> Inr v
                    | None \<Rightarrow> Inl (Error NoEmbeddingVector)))))"

subsection \<open>The index store (utils/local-rag.ts)\<close>

text \<open>
  The values of the language that JSON can print: \<^verbatim>\<open>null\<close>, booleans, numbers, strings,
  arrays and objects (the members in their order).
\<close>

datatype json =
    JNull
  | JBool bool
  | JNumber number
  | JString jsString
  | JArray "json list"
  | JObject "(jsString \<times> json) list"

text \<open>
  What \<^verbatim>\<open>JSON.parse(JSON.stringify(v))\<close> returns for such a value. \<^verbatim>\<open>JSON.stringify\<close>
  prints \<^verbatim>\<open>NaN\<close> and the infinities as \<^verbatim>\<open>null\<close> and the negative zero as \<^verbatim>\<open>0\<close>; it
  prints every other number with the digits that read back as the same double, and
  strings, arrays and objects member by member.
\<close>

definition reparsedNumber :: "number \<Rightarrow> json" where
  "reparsedNumber x =
     (case x of
        NaN \<Rightarrow> JNull | PosInf \<Rightarrow> JNull | NegInf \<Rightarrow> JNull
      | NegZero \<Rightarrow> JNumber (Finite 0)
      | Finite r \<Rightarrow> JNumber (Finite r))"

primrec reparsed :: "json \<Rightarrow> json" where
  "reparsed JNull = JNull"
| "reparsed (JBool b) = JBool b"
| "reparsed (JNumber x) = reparsedNumber x"
| "reparsed (JString s) = JString s"
| "reparsed (JArray vs) = JArray (map reparsed vs)"
| "reparsed (JObject ms) = JObject (map (map_prod id reparsed) ms)"

text \<open>
  The text of a file is kept up to what \<^verbatim>\<open>JSON.parse\<close> makes of it: the text of a JSON
  value (\<open>JsonText v\<close>, where \<open>v\<close> is the value parsed), or a text that is not JSON. Of the
  latter there are two: \<open>Incomplete\<close> is the text of a file that is being written (the
  empty text after the file was truncated, or a proper prefix of the final text), and
  \<open>Malformed\<close> is any other text.
\<close>

datatype fileText = JsonText json | Incomplete | Malformed

text \<open>
  The part of the file system the code touches. The folder \<^verbatim>\<open>docs\<close> exists or not. The
  folder of the artifact, \<^verbatim>\<open>data\<close>, does not exist, or is a regular file, or is a
  directory with its search and write permissions and its entry for the artifact
  \<^verbatim>\<open>local-index.json\<close>: no entry, a directory, or a regular file with its read and write
  permissions and its text. The working directory exists and may be searched. Symbolic
  links, a process that ignores the permissions, errors of the device and exhausted
  resources are outside the model.
\<close>

datatype fileState =
    NoFile
  | FileIsDirectory
  | RegularFile bool bool fileText

datatype folderState =
    NoFolder
  | FolderIsFile
  | Folder bool bool fileState

record fileSystem =
  docsFolder :: bool
  dataFolder :: folderState

definition artifact :: "fileSystem \<Rightarrow> fileState" where
  "artifact fs = (case dataFolder fs of Folder _ _ entry \<Rightarrow> entry | _ \<Rightarrow> NoFile)"

definition mkdir_DOCS_DIR :: "fileSystem \<Rightarrow> fileSystem" where
  "mkdir_DOCS_DIR fs = fs\<lparr>docsFolder := True\<rparr>"

text \<open>
  \<^verbatim>\<open>fs.mkdir(folder, { recursive: true })\<close> creates the folder when it does not exist,
  leaves an existing directory as it is, and fails with \<^verbatim>\<open>EEXIST\<close> on a regular file.
\<close>

definition mkdir_folder :: "fileSystem \<Rightarrow> error + fileSystem" where
  "mkdir_folder fs =
     (case dataFolder fs of
        NoFolder \<Rightarrow> Inr (fs\<lparr>dataFolder := Folder True True NoFile\<rparr>)
      | FolderIsFile \<Rightarrow> Inl (FsError EEXIST)
      | Folder _ _ _ \<Rightarrow> Inr fs)"

text \<open>
  \<^verbatim>\<open>fs.readFile(LOCAL_INDEX_PATH, 'utf8')\<close>: \<^verbatim>\<open>ENOENT\<close> when the folder or the entry does
  not exist, \<^verbatim>\<open>ENOTDIR\<close> when the folder is a regular file, \<^verbatim>\<open>EISDIR\<close> when the entry is a
  directory, \<^verbatim>\<open>EACCES\<close> when the folder may not be searched or the file may not be read.
\<close>

definition readFile :: "fileSystem \<Rightarrow> error + fileText" where
  "readFile fs =
     (case dataFolder fs of
        NoFolder \<Rightarrow> Inl (FsError ENOENT)
      | FolderIsFile \<Rightarrow> Inl (FsError ENOTDIR)
      | Folder searchable _ entry \<Rightarrow>
          if \<not> searchable then Inl (FsError EACCES)
          else
            (case entry of
               NoFile \<Rightarrow> Inl (FsError ENOENT)
             | FileIsDirectory \<Rightarrow> Inl (FsError EISDIR)
             | RegularFile readable _ content \<Rightarrow>
                 if readable then Inr content else Inl (FsError EACCES)))"

text \<open>
  \<^verbatim>\<open>fs.writeFile(path, data)\<close> opens the file with the flag \<^verbatim>\<open>w\<close>, which creates it or
  truncates it, and then writes the data: these are two steps, and between them the file
  holds an incomplete text. Creating the file needs the write permission of the folder,
  truncating it the write permission of the file; a new file may be read and written.
\<close>

definition openTruncate :: "fileSystem \<Rightarrow> error + fileSystem" where
  "openTruncate fs =
     (case dataFolder fs of
        NoFolder \<Rightarrow> Inl (FsError ENOENT)
      | FolderIsFile \<Rightarrow> Inl (FsError ENOTDIR)
      | Folder searchable writable entry \<Rightarrow>
          if \<not> searchable then Inl (FsError EACCES)
          else
            (case entry of
               NoFile \<Rightarrow>
                 if writable
                 then Inr (fs\<lparr>dataFolder :=
                             Folder searchable writable (RegularFile True True Incomplete)\<rparr>)
                 else Inl (FsError EACCES)
             | FileIsDirectory \<Rightarrow> Inl (FsError EISDIR)
             | RegularFile readable fileWritable _ \<Rightarrow>
                 if fileWritable
                 then Inr (fs\<lparr>dataFolder :=
                             Folder searchable writable
                               (RegularFile readable fileWritable Incomplete)\<rparr>)
                 else Inl (FsError EACCES)))"

definition writeAll :: "fileSystem \<Rightarrow> fileText \<Rightarrow> fileSystem" where
  "writeAll fs content =
     (case dataFolder fs of
        Folder searchable writable (RegularFile readable fileWritable _) \<Rightarrow>
          fs\<lparr>dataFolder := Folder searchable writable (RegularFile readable fileWritable content)\<rparr>
      | _ \<Rightarrow> fs)"

text \<open>
  \<^verbatim>\<open>JSON.parse\<close> throws a \<^verbatim>\<open>SyntaxError\<close> on a text that is not JSON. The index as a
  value of the language is an object with the fields of \<^verbatim>\<open>LocalIndex\<close>, in the order of
  the type; \<^verbatim>\<open>JSON.stringify(index, null, 2)\<close> is the text that parses to that value
  reparsed.
\<close>

definition JSON_parse :: "fileText \<Rightarrow> error + json" where
  "JSON_parse content = (case content of JsonText v \<Rightarrow> Inr v | _ \<Rightarrow> Inl SyntaxError)"

definition JSON_stringify :: "json \<Rightarrow> fileText" where
  "JSON_stringify v = JsonText (reparsed v)"

definition itemToJson :: "LocalIndexItem \<Rightarrow> json" where
  "itemToJson it =
     JObject [(ofAscii ''id'', JString (item_id it)),
              (ofAscii ''embedding'', JArray (map JNumber (embedding it))),
              (ofAscii ''metadata'',
                 JObject [(ofAscii ''text'', JString (md_text (metadata it))),
                          (ofAscii ''source'', JString (md_source (metadata it))),
                          (ofAscii ''chunk'', JNumber (md_chunk (metadata it)))])]"

definition indexToJson :: "LocalIndex \<Rightarrow> json" where
  "indexToJson index =
     JObject [(ofAscii ''embeddingModel'', JString (embeddingModel index)),
              (ofAscii ''dimension'', JNumber (dimension index)),
              (ofAscii ''createdAt'', JString (createdAt index)),
              (ofAscii ''items'', JArray (map itemToJson (items index)))]"

text \<open>
  \<^verbatim>\<open>readLocalIndex\<close> returns what \<^verbatim>\<open>JSON.parse\<close> returns: the cast
  \<^verbatim>\<open>as LocalIndex\<close> checks nothing at run time, so the result is a JSON value.
\<close>

definition readLocalIndex :: "fileSystem \<Rightarrow> error + json" where
  "readLocalIndex fs =
     (case readFile fs of
        Inl e \<Rightarrow> Inl e
      | Inr content \<Rightarrow> JSON_parse content)"

text \<open>
  \<^verbatim>\<open>writeLocalIndex\<close>: \<^verbatim>\<open>fs.mkdir(folder, { recursive: true })\<close>, then
  \<^verbatim>\<open>fs.writeFile(LOCAL_INDEX_PATH, JSON.stringify(index, null, 2))\<close>. It returns the result
  and the file system it leaves. \<open>writeLocalIndex_states\<close> lists the states the file
  system goes through during the call, the state before the call first: these are the
  states another process can read.
\<close>

definition writeLocalIndex :: "fileSystem \<Rightarrow> LocalIndex \<Rightarrow> (error + unit) \<times> fileSystem" where
  "writeLocalIndex fs index =
     (case mkdir_folder fs of
        Inl e \<Rightarrow> (Inl e, fs)
      | Inr fs1 \<Rightarrow>
          (case openTruncate fs1 of
             Inl e \<Rightarrow> (Inl e, fs1)
           | Inr fs2 \<Rightarrow> (Inr (), writeAll fs2 (JSON_stringify (indexToJson index)))))"

definition writeLocalIndex_states :: "fileSystem \<Rightarrow> LocalIndex \<Rightarrow> fileSystem list" where
  "writeLocalIndex_states fs index =
     (case mkdir_folder fs of
        Inl e \<Rightarrow> [fs]
      | Inr fs1 \<Rightarrow>
          (case openTruncate fs1 of
             Inl e \<Rightarrow> [fs, fs1]
           | Inr fs2 \<Rightarrow> [fs, fs1, fs2, writeAll fs2 (JSON_stringify (indexToJson index))]))"



subsection \<open>The ingestion run (scripts/ingest-data.ts)\<close>

text \<open>
  What the run reads from outside: the outcome of \<^verbatim>\<open>findPdfFiles(DOCS_DIR)\<close> (the paths
  found, or an error of \<^verbatim>\<open>readdir\<close>), whether \<^verbatim>\<open>pdf-parse\<close> loads, for each path the
  outcome of \<^verbatim>\<open>fs.readFile\<close> and \<^verbatim>\<open>parsePdf\<close> (the \<^verbatim>\<open>text\<close> of the parsed document,
  \<open>None\<close> when it is undefined, or the error thrown), the network of the embedding
  service, SHA-1 with hexadecimal output, the clock, and the model name from the
  environment.
\<close>

record ingestEnv =
  pdfFilesFound :: "error + jsString list"
  pdfParserLoads :: bool
  documentText :: "jsString \<Rightarrow> error + jsString option"
  fetchEmbed :: "jsString \<Rightarrow> fetchResult"
  sha1Hex :: "jsString \<Rightarrow> jsString"
  nowISO :: jsString
  OLLAMA_EMBED_MODEL :: jsString

definition CHUNK_SIZE :: int where "CHUNK_SIZE = 1000"
definition CHUNK_OVERLAP :: int where "CHUNK_OVERLAP = 200"

text \<open>
  \<^verbatim>\<open>vectorId\<close> hashes the template string \<^verbatim>\<open>${source}:${chunkIndex}\<close>; \<open>decimal\<close> is the
  decimal numeral of the chunk index in it.
\<close>

fun decimal :: "nat \<Rightarrow> jsString" where
  "decimal n = (if n < 10 then [of_nat (48 + n)] else decimal (n div 10) @ [of_nat (48 + n mod 10)])"

declare decimal.simps [simp del]

definition vectorId :: "ingestEnv \<Rightarrow> jsString \<Rightarrow> nat \<Rightarrow> jsString" where
  "vectorId env source chunkIndex = sha1Hex env (source @ ofAscii '':'' @ decimal chunkIndex)"

text \<open>
  The inner loop of \<^verbatim>\<open>run\<close> over \<^verbatim>\<open>chunks.entries()\<close> and the outer loop over the files;
  \<open>pushed\<close> is the array \<^verbatim>\<open>items\<close> so far. The paths found are relative to the working
  directory, so \<^verbatim>\<open>path.relative(process.cwd(), file)\<close> is the path itself. The outer
  loop returns \<open>None\<close> when the chunker does not return.
\<close>

fun embedChunks ::
  "ingestEnv \<Rightarrow> jsString \<Rightarrow> (nat \<times> jsString) list \<Rightarrow> LocalIndexItem list
     \<Rightarrow> error + LocalIndexItem list" where
  "embedChunks env source [] pushed = Inr pushed"
| "embedChunks env source ((chunkIndex, text) # rest) pushed =
     (case embedText (fetchEmbed env) text of
        Inl e \<Rightarrow> Inl e
      | Inr vector \<Rightarrow>
          embedChunks env source rest
            (pushed @ [\<lparr>item_id = vectorId env source chunkIndex,
                       embedding = vector,
                       metadata = \<lparr>md_text = text, md_source = source,
                                   md_chunk = ofNat chunkIndex\<rparr>\<rparr>]))"

fun processFiles ::
  "ingestEnv \<Rightarrow> jsString list \<Rightarrow> LocalIndexItem list \<Rightarrow> (error + LocalIndexItem list) option" where
  "processFiles env [] pushed = Some (Inr pushed)"
| "processFiles env (file # rest) pushed =
     (case documentText env file of
        Inl e \<Rightarrow> Some (Inl e)
      | Inr parsed_text \<Rightarrow>
          (let source = file
           in case splitText (case parsed_text of None \<Rightarrow> [] | Some t \<Rightarrow> t) CHUNK_SIZE CHUNK_OVERLAP of
                None \<Rightarrow> None
              | Some chunks \<Rightarrow>
                  (case embedChunks env source (zip [0..<length chunks] chunks) pushed of
                     Inl e \<Rightarrow> Some (Inl e)
                   | Inr pushed' \<Rightarrow> processFiles env rest pushed')))"

definition run :: "ingestEnv \<Rightarrow> fileSystem \<Rightarrow> ((error + unit) \<times> fileSystem) option" where
  "run env fs =
     (let fs1 = mkdir_DOCS_DIR fs
      in case pdfFilesFound env of
           Inl e \<Rightarrow> Some (Inl e, fs1)
         | Inr pdfFiles \<Rightarrow>
             if length pdfFiles = 0 then Some (Inl (Error NoPdfFilesFound), fs1)
             else if \<not> pdfParserLoads env then Some (Inl (Error FailedToLoadPdfParse), fs1)
             else
               (case processFiles env pdfFiles [] of
                  None \<Rightarrow> None
                | Some (Inl e) \<Rightarrow> Some (Inl e, fs1)
                | Some (Inr pushed) \<Rightarrow>
                    (case pushed of
                       [] \<Rightarrow> Some (Inl (Error NoTextChunks), fs1)
                     | first # _ \<Rightarrow>
                         Some (writeLocalIndex fs1
                                 \<lparr>embeddingModel = OLLAMA_EMBED_MODEL env,
                                  dimension = ofNat (length (embedding first)),
                                  createdAt = nowISO env,
                                  items = pushed\<rparr>))))"

subsection \<open>Notions of the specification and examples\<close>

text \<open>
  The reading of the specification that the similarity is the cosine of the two vectors
  cut to their shared prefix: both the dot product and the two magnitudes are taken over
  the first \<open>min (length a) (length b)\<close> components.
\<close>

definition prefixCosine_spec :: "number list \<Rightarrow> number list \<Rightarrow> number" where
  "prefixCosine_spec a b =
     (let m = min (length a) (length b)
      in cosineSimilarity (take m a) (take m b))"


text \<open>
  Concatenating fragments with the overlapping prefixes removed: the first fragment
  whole, every later one without its first \<open>ov\<close> characters.
\<close>

fun joinChunks_spec :: "nat \<Rightarrow> 'a list list \<Rightarrow> 'a list" where
  "joinChunks_spec ov [] = []"
| "joinChunks_spec ov (c # cs) = c @ concat (map (drop ov) cs)"

text \<open>
  The windows of width \<open>w\<close> taken every \<open>step\<close> positions from \<open>start\<close>, the last one
  reaching the end of the text: the closed form of what the loop of the chunker produces.
\<close>

function windows :: "'a list \<Rightarrow> nat \<Rightarrow> nat \<Rightarrow> nat \<Rightarrow> 'a list list" where
  "windows xs w step start =
     (if start + w < length xs \<and> 0 < step
      then take w (drop start xs) # windows xs w step (start + step)
      else [drop start xs])"
  by pat_completeness auto
termination
  by (relation "measure (\<lambda>(xs, w, step, start). length xs - start)") auto

declare windows.simps [simp del]

text \<open>
  The comparisons of the language on numbers, \<^verbatim>\<open>x <= y\<close> and \<^verbatim>\<open>x == y\<close>: false when
  an operand is \<^verbatim>\<open>NaN\<close>, and the two zeros are equal.
\<close>

definition numLe :: "number \<Rightarrow> number \<Rightarrow> bool" where
  "numLe x y \<longleftrightarrow>
     x \<noteq> NaN \<and> y \<noteq> NaN
     \<and> (x = NegInf \<or> y = PosInf \<or> (isFinite x \<and> isFinite y \<and> valueOf x \<le> valueOf y))"

definition numEq :: "number \<Rightarrow> number \<Rightarrow> bool" where
  "numEq x y \<longleftrightarrow> x \<noteq> NaN \<and> y \<noteq> NaN \<and> (x = y \<or> (isZero x \<and> isZero y))"

text \<open>
  For the proofs about the ranking: the doubles are multiples of \<open>2 powi (- 1074)\<close>
  (\<open>onGrid\<close>, and \<open>gridded\<close> for a number), and \<open>descKey\<close> orders the numbers other than
  \<^verbatim>\<open>NaN\<close> from the largest to the smallest, the two zeros together.
\<close>

definition onGrid :: "real \<Rightarrow> bool" where
  "onGrid r \<longleftrightarrow> (\<exists>k::int. r = of_int k * 2 powi (- 1074))"

definition gridded :: "number \<Rightarrow> bool" where
  "gridded x = (case x of Finite r \<Rightarrow> onGrid r | _ \<Rightarrow> True)"

definition descKey :: "number \<Rightarrow> int \<times> real" where
  "descKey x =
     (case x of
        PosInf \<Rightarrow> (- 1, 0) | NegInf \<Rightarrow> (1, 0) | Finite r \<Rightarrow> (0, - r)
      | NegZero \<Rightarrow> (0, 0) | NaN \<Rightarrow> (0, 0))"

text \<open>
  An index whose numbers JSON prints as they are: each is finite and is not the negative
  zero. A file system in which the artifact can be saved and loaded: the folder is
  missing or is a directory that may be searched, and the artifact is missing in a
  folder that may be written, or is a regular file that may be read and written.
\<close>

definition plainNumber :: "number \<Rightarrow> bool" where
  "plainNumber x = (case x of Finite _ \<Rightarrow> True | _ \<Rightarrow> False)"

definition plainIndex :: "LocalIndex \<Rightarrow> bool" where
  "plainIndex index \<longleftrightarrow>
     plainNumber (dimension index)
     \<and> list_all (\<lambda>it. list_all plainNumber (embedding it)
                      \<and> plainNumber (md_chunk (metadata it))) (items index)"

definition usable :: "fileSystem \<Rightarrow> bool" where
  "usable fs =
     (case dataFolder fs of
        NoFolder \<Rightarrow> True
      | FolderIsFile \<Rightarrow> False
      | Folder searchable writable entry \<Rightarrow>
          searchable
          \<and> (case entry of
                NoFile \<Rightarrow> writable
              | FileIsDirectory \<Rightarrow> False
              | RegularFile readable fileWritable _ \<Rightarrow> readable \<and> fileWritable))"

text \<open>The text of the artifact, when the artifact is a regular file.\<close>

definition artifactText :: "fileSystem \<Rightarrow> fileText option" where
  "artifactText fs = (case artifact fs of RegularFile _ _ content \<Rightarrow> Some content | _ \<Rightarrow> None)"

text \<open>
  The expected shape of the index (the type \<^verbatim>\<open>LocalIndex\<close>) as a predicate on JSON
  values: an object with the four fields of the type, each of its type, the items being
  objects with the fields of \<^verbatim>\<open>LocalIndexItem\<close>.
\<close>

definition field :: "(jsString \<times> json) list \<Rightarrow> string \<Rightarrow> json option" where
  "field members name = map_of members (ofAscii name)"

definition isString :: "json option \<Rightarrow> bool" where
  "isString v = (case v of Some (JString _) \<Rightarrow> True | _ \<Rightarrow> False)"

definition isNumber :: "json option \<Rightarrow> bool" where
  "isNumber v = (case v of Some (JNumber _) \<Rightarrow> True | _ \<Rightarrow> False)"

definition isNumberArray :: "json option \<Rightarrow> bool" where
  "isNumberArray v = (case v of Some (JArray vs) \<Rightarrow> list_all (\<lambda>x. isNumber (Some x)) vs | _ \<Rightarrow> False)"

definition isMetadata_spec :: "json option \<Rightarrow> bool" where
  "isMetadata_spec v =
     (case v of
        Some (JObject ms) \<Rightarrow>
          isString (field ms ''text'') \<and> isString (field ms ''source'') \<and> isNumber (field ms ''chunk'')
      | _ \<Rightarrow> False)"

definition isLocalIndexItem_spec :: "json \<Rightarrow> bool" where
  "isLocalIndexItem_spec v =
     (case v of
        JObject ms \<Rightarrow>
          isString (field ms ''id'') \<and> isNumberArray (field ms ''embedding'')
          \<and> isMetadata_spec (field ms ''metadata'')
      | _ \<Rightarrow> False)"

definition isLocalIndex_spec :: "json \<Rightarrow> bool" where
  "isLocalIndex_spec v =
     (case v of
        JObject ms \<Rightarrow>
          isString (field ms ''embeddingModel'') \<and> isNumber (field ms ''dimension'')
          \<and> isString (field ms ''createdAt'')
          \<and> (case field ms ''items'' of
                Some (JArray vs) \<Rightarrow> list_all isLocalIndexItem_spec vs
              | _ \<Rightarrow> False)
      | _ \<Rightarrow> False)"

text \<open>
  The condition the specification calls EmptyCorpus: one of the two errors with which
  the run reports that there is nothing to index.
\<close>

definition isEmptyCorpus_spec :: "error \<Rightarrow> bool" where
  "isEmptyCorpus_spec e \<longleftrightarrow> e = Error NoPdfFilesFound \<or> e = Error NoTextChunks"

text \<open>
  Examples. An index of four records; an index of two records whose exact cosines with
  \<open>[1, 1]\<close> are both 1; an index with a large component; an index of one record; an index with
  a negative zero and a \<^verbatim>\<open>NaN\<close>.
\<close>

definition mkItem :: "number list \<Rightarrow> nat \<Rightarrow> LocalIndexItem" where
  "mkItem v n =
     \<lparr>item_id = [], embedding = v,
      metadata = \<lparr>md_text = [], md_source = [], md_chunk = ofNat n\<rparr>\<rparr>"

definition exampleIndex :: LocalIndex where
  "exampleIndex = \<lparr>embeddingModel = [], dimension = Finite 2, createdAt = [],
     items = [mkItem [Finite 1, Finite 0] 0, mkItem [Finite 0, Finite 1] 1,
              mkItem [Finite 4, Finite 3] 2, mkItem [Finite 2, Finite 0] 3]\<rparr>"

definition roundingIndex :: LocalIndex where
  "roundingIndex = \<lparr>embeddingModel = [], dimension = Finite 2, createdAt = [],
     items = [mkItem [Finite 1, Finite 1] 0, mkItem [Finite 3, Finite 3] 1]\<rparr>"

definition overflowIndex :: LocalIndex where
  "overflowIndex = \<lparr>embeddingModel = [], dimension = Finite 1, createdAt = [],
     items = [mkItem [Finite (- 1)] 0, mkItem [Finite (2 ^ 600)] 1, mkItem [Finite 1] 2]\<rparr>"

definition exampleIndex2 :: LocalIndex where
  "exampleIndex2 = \<lparr>embeddingModel = [], dimension = Finite 2, createdAt = [],
     items = [mkItem [Finite 0, Finite 1] 0]\<rparr>"

definition unprintableIndex :: LocalIndex where
  "unprintableIndex = \<lparr>embeddingModel = [], dimension = Finite 2, createdAt = [],
     items = [mkItem [NegZero, NaN] 0]\<rparr>"

text \<open>A network for the examples: one text is embedded, one gets a response without a
  vector, every other request is refused.\<close>

definition exampleFetch :: "jsString \<Rightarrow> fetchResult" where
  "exampleFetch input =
     (if input = ofAscii ''hi'' then
        Responded \<lparr>resp_ok = True, resp_status = 200, resp_text = [],
          resp_json = Some \<lparr>embeddings = Some ([Finite 1, Finite 0] # []), embedding_field = None\<rparr>\<rparr>
      else if input = ofAscii ''no'' then
        Responded \<lparr>resp_ok = True, resp_status = 200, resp_text = [],
          resp_json = Some \<lparr>embeddings = None, embedding_field = None\<rparr>\<rparr>
      else Rejected [])"

text \<open>Two file systems, one holding the first index and one without the folders, and the
  surroundings of a run.\<close>

definition exampleFs :: fileSystem where
  "exampleFs = \<lparr>docsFolder = True,
     dataFolder = Folder True True
       (RegularFile True True (JSON_stringify (indexToJson exampleIndex)))\<rparr>"

definition emptyFs :: fileSystem where
  "emptyFs = \<lparr>docsFolder = False, dataFolder = NoFolder\<rparr>"

definition exampleEnv :: "jsString list \<Rightarrow> ingestEnv" where
  "exampleEnv files =
     \<lparr>pdfFilesFound = Inr files, pdfParserLoads = True,
      documentText = (\<lambda>file. if file = ofAscii ''docs/a.pdf'' then Inr (Some (ofAscii ''ab  cd''))
                              else if file = ofAscii ''docs/b.pdf'' then Inr None
                              else Inr (Some (ofAscii ''  ''))),
      fetchEmbed = (\<lambda>input. Responded \<lparr>resp_ok = True, resp_status = 200, resp_text = [],
          resp_json = Some \<lparr>embeddings = Some ([Finite 1, Finite 0] # []), embedding_field = None\<rparr>\<rparr>),
      sha1Hex = (\<lambda>s. s), nowISO = ofAscii ''2026'', OLLAMA_EMBED_MODEL = ofAscii ''nomic-embed-text''\<rparr>"

section \<open>Properties\<close>

subsection \<open>Rounding\<close>

lemma roundHalfEven_eq:
  "of_int n - 1 / 2 < y \<Longrightarrow> y < of_int n + 1 / 2 \<Longrightarrow> roundHalfEven y = n"
proof -
  assume a: "of_int n - 1 / 2 < y" "y < of_int n + 1 / 2"
  have "\<lfloor>y\<rfloor> = n \<or> \<lfloor>y\<rfloor> = n - 1" using a by linarith
  then show ?thesis
  proof
    assume f: "\<lfloor>y\<rfloor> = n"
    then have "y - of_int \<lfloor>y\<rfloor> < 1 / 2" using a by simp
    then show ?thesis using f by (simp add: roundHalfEven_def)
  next
    assume f: "\<lfloor>y\<rfloor> = n - 1"
    then have "1 / 2 < y - of_int \<lfloor>y\<rfloor>" using a by simp
    then show ?thesis using f by (simp add: roundHalfEven_def Let_def)
  qed
qed

lemma binade_eq:
  assumes "2 powi e \<le> \<bar>x\<bar>" "\<bar>x\<bar> < 2 powi (e + 1)" "- 1022 \<le> e"
  shows "binade x = e"
proof -
  have pos: "0 < \<bar>x\<bar>" using assms(1) by (smt (verit) zero_less_power_int)
  have "(2::real) powr real_of_int e = 2 powi e" "(2::real) powr (real_of_int e + 1) = 2 powi (e + 1)"
    using powr_real_of_int'[of 2 e] powr_real_of_int'[of 2 "e + 1"] by simp_all
  then have "\<lfloor>log 2 \<bar>x\<bar>\<rfloor> = e"
    using assms pos by (simp add: floor_log_eq_powr_iff)
  then show ?thesis using assms(3) by (simp add: binade_def)
qed

lemma roundNearest_eq:
  assumes "2 powi e \<le> \<bar>x\<bar>" "\<bar>x\<bar> < 2 powi (e + 1)" "- 1022 \<le> e"
    and "(of_int n - 1 / 2) * 2 powi (e - 52) < \<bar>x\<bar>"
    and "\<bar>x\<bar> < (of_int n + 1 / 2) * 2 powi (e - 52)"
    and "of_int n * 2 powi (e - 52) < (2::real) ^ 1024"
  shows "roundNearest x = Finite ((if x < 0 then - 1 else 1) * (of_int n * 2 powi (e - 52)))"
proof -
  let ?q = "(2::real) powi (e - 52)"
  have q: "quantum x = ?q" using binade_eq[OF assms(1-3)] by (simp add: quantum_def)
  have qpos: "0 < ?q" by simp
  have "of_int n - 1 / 2 < \<bar>x\<bar> / ?q" "\<bar>x\<bar> / ?q < of_int n + 1 / 2"
    using assms(4,5) qpos by (simp_all add: field_simps)
  then have n: "roundHalfEven (\<bar>x\<bar> / ?q) = n" by (rule roundHalfEven_eq)
  have "?q * 2 ^ 52 = 2 powi e"
    using power_int_add[of "2::real" "e - 52" 52] by simp
  then have "2 ^ 52 * ?q \<le> \<bar>x\<bar>" using assms(1) by (simp add: mult.commute)
  then have "2 ^ 52 * ?q < (of_int n + 1 / 2) * ?q" using assms(5) by linarith
  then have "(2::real) ^ 52 < of_int n + 1 / 2" using qpos by simp
  moreover have "(1::real) \<le> 2 ^ 52" by simp
  ultimately have "(1::real) / 2 < of_int n" by linarith
  then have npos: "0 < n" by linarith
  then have "0 < of_int n * ?q" using qpos by simp
  then show ?thesis using n q npos assms(6) by (simp add: roundNearest_def Let_def)
qed

lemma roundNearest_sqrt_eq:
  assumes "(2 powi e)\<^sup>2 \<le> r" "r < (2 powi (e + 1))\<^sup>2" "- 1022 \<le> e"
    and "0 < n"
    and "((of_int n - 1 / 2) * 2 powi (e - 52))\<^sup>2 < r"
    and "r < ((of_int n + 1 / 2) * 2 powi (e - 52))\<^sup>2"
    and "of_int n * 2 powi (e - 52) < (2::real) ^ 1024"
  shows "roundNearest (sqrt r) = Finite (of_int n * 2 powi (e - 52))"
proof -
  have r: "0 \<le> r" using assms(1) by (smt (verit) zero_le_power2)
  have s: "0 \<le> sqrt r" using r by simp
  have a: "\<bar>sqrt r\<bar> = sqrt r" using s by simp
  have 1: "2 powi e \<le> \<bar>sqrt r\<bar>"
    unfolding a using assms(1) by (rule real_le_rsqrt)
  have 2: "\<bar>sqrt r\<bar> < 2 powi (e + 1)"
    unfolding a using r assms(2) by (intro real_less_lsqrt) simp_all
  have 3: "(of_int n - 1 / 2) * 2 powi (e - 52) < \<bar>sqrt r\<bar>"
    unfolding a using assms(5) by (rule real_less_rsqrt)
  have "0 \<le> (of_int n + 1 / 2) * (2::real) powi (e - 52)"
    using assms(4) by simp
  then have 4: "\<bar>sqrt r\<bar> < (of_int n + 1 / 2) * 2 powi (e - 52)"
    unfolding a using r assms(6) by (intro real_less_lsqrt) simp_all
  have "\<not> sqrt r < 0" using s by simp
  then show ?thesis
    using roundNearest_eq[OF 1 2 assms(3) 3 4 assms(7)] by simp
qed


lemma roundNearest_overflow:
  assumes "2 ^ 1024 \<le> \<bar>x\<bar>"
  shows "roundNearest x = (if x < 0 then NegInf else PosInf)"
proof -
  have pos: "0 < \<bar>x\<bar>" using assms by (smt (verit) zero_less_power)
  define b where "b = \<lfloor>log 2 \<bar>x\<bar>\<rfloor>"
  have "2 powr real_of_int b \<le> \<bar>x\<bar>"
    using pos floor_log_eq_powr_iff[of "\<bar>x\<bar>" 2 b] b_def by simp
  then have lo: "2 powi b \<le> \<bar>x\<bar>" using powr_real_of_int'[of 2 b] by simp
  have "(2::real) powr 1024 \<le> \<bar>x\<bar>" using assms powr_realpow[of 2 1024] by simp
  then have "1024 \<le> log 2 \<bar>x\<bar>" using pos by (simp add: le_log_iff)
  then have b1024: "1024 \<le> b" unfolding b_def by linarith
  then have bin: "binade x = b" by (simp add: binade_def b_def)
  let ?q = "(2::real) powi (b - 52)"
  have qpos: "0 < ?q" by simp
  have qq: "?q * 2 ^ 52 = 2 powi b"
    using power_int_add[of "2::real" "b - 52" 52] by simp
  then have "2 ^ 52 * ?q \<le> \<bar>x\<bar>" using lo by (simp add: mult.commute)
  then have "2 ^ 52 \<le> \<bar>x\<bar> / ?q" using qpos by (simp add: field_simps)
  then have "of_int (2 ^ 52) \<le> \<bar>x\<bar> / ?q" by simp
  then have "2 ^ 52 \<le> \<lfloor>\<bar>x\<bar> / ?q\<rfloor>" by (simp only: le_floor_iff)
  then have "2 ^ 52 \<le> roundHalfEven (\<bar>x\<bar> / ?q)" by (simp add: roundHalfEven_def Let_def)
  then have "(2::real) ^ 52 \<le> of_int (roundHalfEven (\<bar>x\<bar> / ?q))"
    by (metis of_int_le_iff of_int_numeral of_int_power)
  then have le: "2 ^ 52 * ?q \<le> of_int (roundHalfEven (\<bar>x\<bar> / ?q)) * ?q"
    using qpos by (simp only: mult_le_cancel_right_pos)
  have "2 powi b = 2 ^ 52 * ?q" using qq by (simp only: mult.commute)
  then have "2 powi b \<le> of_int (roundHalfEven (\<bar>x\<bar> / ?q)) * ?q"
    using le by (simp only:)
  moreover have "(2::real) powi 1024 \<le> 2 powi b"
    using b1024 by (intro power_int_increasing) simp_all
  ultimately have "2 ^ 1024 \<le> of_int (roundHalfEven (\<bar>x\<bar> / ?q)) * ?q" by simp
  then show ?thesis by (simp add: roundNearest_def Let_def quantum_def bin)
qed

lemma numMul_commute: "numMul x y = numMul y x"
proof -
  have "(signBit x \<noteq> signBit y) = (signBit y \<noteq> signBit x)" by auto
  then show ?thesis
    by (simp add: numMul_def mult.commute disj_commute)
qed

lemma onGrid_0: "onGrid 0"
  unfolding onGrid_def by (rule exI[of _ 0]) simp

lemma quantum_grid: "\<exists>k::int. quantum x = of_int k * 2 powi (- 1074)"
proof -
  have "0 \<le> binade x + 1022" by (simp add: binade_def)
  then obtain m where m: "binade x + 1022 = int m" using nonneg_int_cases by blast
  have "binade x - 52 = int m + (- 1074)" using m by linarith
  then have "quantum x = 2 powi (int m + (- 1074))"
    by (simp only: quantum_def)
  also have "\<dots> = 2 powi (int m) * 2 powi (- 1074)"
    by (rule power_int_add) simp
  also have "\<dots> = of_int (2 ^ m) * 2 powi (- 1074)" by simp
  finally show ?thesis by blast
qed

lemma roundNearest_cases:
  "roundNearest x =
     (if 2 ^ 1024 \<le> of_int (roundHalfEven (\<bar>x\<bar> / quantum x)) * quantum x
      then (if x < 0 then NegInf else PosInf)
      else if of_int (roundHalfEven (\<bar>x\<bar> / quantum x)) * quantum x = 0
      then (if x < 0 then NegZero else Finite 0)
      else Finite (if x < 0 then - (of_int (roundHalfEven (\<bar>x\<bar> / quantum x)) * quantum x)
                   else of_int (roundHalfEven (\<bar>x\<bar> / quantum x)) * quantum x))"
  by (simp only: roundNearest_def Let_def)

lemma roundNearest_gridded: "gridded (roundNearest x)"
proof -
  obtain k :: int where k: "quantum x = of_int k * 2 powi (- 1074)"
    using quantum_grid by blast
  define r where "r = of_int (roundHalfEven (\<bar>x\<bar> / quantum x)) * quantum x"
  have "r = of_int (roundHalfEven (\<bar>x\<bar> / quantum x) * k) * 2 powi (- 1074)"
       "- r = of_int (- (roundHalfEven (\<bar>x\<bar> / quantum x) * k)) * 2 powi (- 1074)"
    unfolding r_def using k by simp_all
  then have g: "onGrid r" "onGrid (- r)"
    unfolding onGrid_def by blast+
  have "roundNearest x =
     (if 2 ^ 1024 \<le> r then (if x < 0 then NegInf else PosInf)
      else if r = 0 then (if x < 0 then NegZero else Finite 0)
      else Finite (if x < 0 then - r else r))"
    unfolding r_def by (rule roundNearest_cases)
  then show ?thesis using g
    by (simp add: gridded_def onGrid_0)
qed

lemma gridded_simps [simp]:
  "gridded NaN" "gridded PosInf" "gridded NegInf" "gridded NegZero" "gridded (Finite 0)"
  by (simp_all add: gridded_def onGrid_0)

lemma numDiv_gridded: "gridded (numDiv x y)"
  by (simp add: numDiv_def signedInf_def signedZero_def roundNearest_gridded)

lemma roundHalfEven_ge1: "1 \<le> y \<Longrightarrow> 1 \<le> roundHalfEven y"
proof -
  assume "1 \<le> y"
  then have "1 \<le> \<lfloor>y\<rfloor>" by linarith
  then show ?thesis by (simp add: roundHalfEven_def Let_def)
qed

lemma quantum_le:
  assumes "2 powi (- 1074) \<le> \<bar>x\<bar>"
  shows "quantum x \<le> \<bar>x\<bar>"
proof (cases "\<lfloor>log 2 \<bar>x\<bar>\<rfloor> \<le> - 1022")
  case True
  then have "binade x = - 1022" by (simp add: binade_def)
  then show ?thesis using assms by (simp add: quantum_def)
next
  case False
  then have b: "binade x = \<lfloor>log 2 \<bar>x\<bar>\<rfloor>" by (simp add: binade_def)
  have pos: "0 < \<bar>x\<bar>" using assms by (smt (verit) zero_less_power_int)
  have "2 powr real_of_int (binade x) \<le> \<bar>x\<bar>"
    using pos floor_log_eq_powr_iff[of "\<bar>x\<bar>" 2 "binade x"] b by simp
  then have "2 powi binade x \<le> \<bar>x\<bar>"
    using powr_real_of_int'[of 2 "binade x"] by simp
  moreover have "(2::real) powi (binade x - 52) \<le> 2 powi binade x"
    by (rule power_int_increasing) simp_all
  ultimately show ?thesis by (simp add: quantum_def)
qed

lemma roundNearest_positive:
  assumes "2 powi (- 1074) \<le> x"
  shows "isPositive (roundNearest x)"
proof -
  have pos: "0 < x" using assms by (smt (verit) zero_less_power_int)
  then have ax: "\<bar>x\<bar> = x" by simp
  have q: "0 < quantum x" by (simp add: quantum_def)
  have "quantum x \<le> \<bar>x\<bar>" using assms ax by (intro quantum_le) simp
  then have "1 \<le> \<bar>x\<bar> / quantum x" using q by simp
  then have n: "1 \<le> roundHalfEven (\<bar>x\<bar> / quantum x)" by (rule roundHalfEven_ge1)
  then have "0 < of_int (roundHalfEven (\<bar>x\<bar> / quantum x)) * quantum x"
    using q by simp
  then show ?thesis using pos n q
    by (auto simp: roundNearest_def Let_def isPositive_def)
qed

lemma roundNearest_not_positive: "x \<le> 0 \<Longrightarrow> \<not> isPositive (roundNearest x)"
proof -
  assume x: "x \<le> 0"
  have q: "0 < quantum x" by (simp add: quantum_def)
  have "0 \<le> \<bar>x\<bar> / quantum x" using q by simp
  then have "0 \<le> \<lfloor>\<bar>x\<bar> / quantum x\<rfloor>" by simp
  then have "0 \<le> roundHalfEven (\<bar>x\<bar> / quantum x)" by (simp add: roundHalfEven_def Let_def)
  then have n: "0 \<le> of_int (roundHalfEven (\<bar>x\<bar> / quantum x)) * quantum x"
    using q by simp
  show ?thesis
  proof (cases "x = 0")
    case True
    then show ?thesis by (simp add: roundNearest_def Let_def isPositive_def roundHalfEven_def)
  next
    case False
    then have "x < 0" using x by simp
    then show ?thesis using n by (simp add: roundNearest_def Let_def isPositive_def)
  qed
qed

lemma grid_gap:
  assumes "onGrid a" "onGrid b" "a < b"
  shows "2 powi (- 1074) \<le> b - a"
proof -
  obtain k l :: int where k: "a = of_int k * 2 powi (- 1074)" and l: "b = of_int l * 2 powi (- 1074)"
    using assms by (auto simp: onGrid_def)
  have g: "(0::real) < 2 powi (- 1074)" by simp
  have "of_int k * 2 powi (- 1074) < (of_int l :: real) * 2 powi (- 1074)"
    using assms(3) k l by simp
  then have "(of_int k :: real) < of_int l" using g by (simp only: mult_less_cancel_right_pos)
  then have "k + 1 \<le> l" by simp
  then have "(of_int k :: real) + 1 \<le> of_int l" by linarith
  then have "(of_int k + 1) * 2 powi (- 1074) \<le> (of_int l :: real) * 2 powi (- 1074)"
    using g by (simp only: mult_le_cancel_right_pos)
  then show ?thesis unfolding k l by (simp add: algebra_simps)
qed

lemma comparator_key:
  assumes "a \<noteq> NaN" "b \<noteq> NaN" "gridded a" "gridded b"
  shows "\<not> isPositive (numSub b a) \<longleftrightarrow> descKey a \<le> descKey b"
proof (cases "isFinite a \<and> isFinite b")
  case False
  then show ?thesis using assms(1,2)
    by (cases a; cases b)
       (simp_all add: numSub_def numAdd_def numNeg_def isPositive_def descKey_def isFinite_def)
next
  case True
  have va: "valueOf (numNeg a) = - valueOf a" "numNeg a \<noteq> NaN" "numNeg a \<noteq> PosInf" "numNeg a \<noteq> NegInf"
    using True by (cases a; simp add: numNeg_def valueOf_def isFinite_def)+
  have fb: "b \<noteq> PosInf" "b \<noteq> NegInf" using True by (auto simp: isFinite_def)
  have key: "descKey a \<le> descKey b \<longleftrightarrow> valueOf b \<le> valueOf a"
    using True by (cases a; cases b) (simp_all add: descKey_def valueOf_def isFinite_def)
  have "onGrid (valueOf a)"
    using True assms(3) by (cases a) (simp_all add: gridded_def valueOf_def onGrid_0 isFinite_def)
  moreover have "onGrid (valueOf b)"
    using True assms(4) by (cases b) (simp_all add: gridded_def valueOf_def onGrid_0 isFinite_def)
  ultimately have ga: "onGrid (valueOf a)" "onGrid (valueOf b)" by simp_all
  show ?thesis
  proof (cases "valueOf b + - valueOf a = 0")
    case z: True
    then show ?thesis using assms(2) va fb key
      by (simp add: numSub_def numAdd_def signedZero_def isPositive_def)
  next
    case nz: False
    have sub: "numSub b a = roundNearest (valueOf b - valueOf a)"
      using assms(2) va fb nz by (simp add: numSub_def numAdd_def)
    show ?thesis
    proof (cases "valueOf a < valueOf b")
      case lt: True
      then have "2 powi (- 1074) \<le> valueOf b - valueOf a" using ga by (intro grid_gap)
      then have "isPositive (numSub b a)" unfolding sub by (rule roundNearest_positive)
      then show ?thesis using lt key by simp
    next
      case ge: False
      then have "valueOf b - valueOf a \<le> 0" by simp
      then have "\<not> isPositive (numSub b a)" unfolding sub by (rule roundNearest_not_positive)
      then show ?thesis using ge key by simp
    qed
  qed
qed

subsection \<open>Similarity\<close>

text \<open>The roundings that the examples need, each checked against the definition.\<close>

lemma roundNearest_1: "roundNearest 1 = Finite 1"
  using roundNearest_eq[of "0" "1" 4503599627370496] by simp

lemma roundNearest_2: "roundNearest 2 = Finite 2"
  using roundNearest_eq[of "1" "2" 4503599627370496] by simp

lemma roundNearest_3: "roundNearest 3 = Finite 3"
  using roundNearest_eq[of "1" "3" 6755399441055744] by simp

lemma roundNearest_ratio_1: "roundNearest (15211807202738751055289669474361 / 5070602400912917605986812821504) = Finite (6755399441055743 / 2251799813685248)"
  using roundNearest_eq[of "1" "15211807202738751055289669474361 / 5070602400912917605986812821504" 6755399441055743] by simp

lemma roundNearest_ratio_2: "roundNearest (6755399441055744 / 6755399441055743) = Finite (4503599627370497 / 4503599627370496)"
  using roundNearest_eq[of "0" "6755399441055744 / 6755399441055743" 4503599627370497] by simp

lemma roundNearest_pow2_1200: "roundNearest 17218479456385750618067377696052635483579924745448689921733236816400740691241745619397484537236046173286370919031961587788584927290816661024991609882728717344659503471655990880884679896520055123906467064419056526231345685268240569209892573766037966584735183775739433978714578587782701380797240772477647874555986712746271362892227516205318914435913511141036261376 = PosInf"
  using roundNearest_overflow[of "17218479456385750618067377696052635483579924745448689921733236816400740691241745619397484537236046173286370919031961587788584927290816661024991609882728717344659503471655990880884679896520055123906467064419056526231345685268240569209892573766037966584735183775739433978714578587782701380797240772477647874555986712746271362892227516205318914435913511141036261376"] by simp

lemma roundNearest_9: "roundNearest 9 = Finite 9"
  using roundNearest_eq[of "3" "9" 5066549580791808] by simp

lemma roundNearest_16: "roundNearest 16 = Finite 16"
  using roundNearest_eq[of "4" "16" 4503599627370496] by simp

lemma roundNearest_25: "roundNearest 25 = Finite 25"
  using roundNearest_eq[of "4" "25" 7036874417766400] by simp

lemma roundNearest_15: "roundNearest 15 = Finite 15"
  using roundNearest_eq[of "3" "15" 8444249301319680] by simp

lemma roundNearest_3_over_5: "roundNearest (3 / 5) = Finite (5404319552844595 / 9007199254740992)"
  using roundNearest_eq[of "- 1" "3 / 5" 5404319552844595] by simp

lemma roundNearest_4: "roundNearest 4 = Finite 4"
  using roundNearest_eq[of "2" "4" 4503599627370496] by simp

lemma roundNearest_5: "roundNearest 5 = Finite 5"
  using roundNearest_eq[of "2" "5" 5629499534213120] by simp

lemma roundNearest_4_over_5: "roundNearest (4 / 5) = Finite (3602879701896397 / 4503599627370496)"
  using roundNearest_eq[of "- 1" "4 / 5" 7205759403792794] by simp

lemma roundNearest_ratio_3: "roundNearest (900719925474099 / 4503599627370496) = Finite (900719925474099 / 4503599627370496)"
  using roundNearest_eq[of "- 3" "900719925474099 / 4503599627370496" 7205759403792792] by simp

lemma roundNearest_ratio_4: "roundNearest (3602879701896397 / 4503599627370496) = Finite (3602879701896397 / 4503599627370496)"
  using roundNearest_eq[of "- 1" "3602879701896397 / 4503599627370496" 7205759403792794] by simp

lemma roundNearest_ratio_5: "roundNearest (40564819207303346393761349247529 / 20282409603651670423947251286016) = Finite (4503599627370497 / 2251799813685248)"
  using roundNearest_eq[of "1" "40564819207303346393761349247529 / 20282409603651670423947251286016" 4503599627370497] by simp

lemma roundNearest_ratio_6: "roundNearest (4503599627370496 / 4503599627370497) = Finite (4503599627370495 / 4503599627370496)"
  using roundNearest_eq[of "- 1" "4503599627370496 / 4503599627370497" 9007199254740990] by simp

lemma roundNearest_18: "roundNearest 18 = Finite 18"
  using roundNearest_eq[of "4" "18" 5066549580791808] by simp

lemma roundNearest_6: "roundNearest 6 = Finite 6"
  using roundNearest_eq[of "2" "6" 6755399441055744] by simp

lemma roundNearest_ratio_7: "roundNearest (30423614405477505018532257541317 / 5070602400912917605986812821504) = Finite 6"
  using roundNearest_eq[of "2" "30423614405477505018532257541317 / 5070602400912917605986812821504" 6755399441055744] by simp

lemma roundNearest_ratio_8: "roundNearest (1 / 4503599627370496) = Finite (1 / 4503599627370496)"
  using roundNearest_eq[of "- 52" "1 / 4503599627370496" 4503599627370496] by simp

lemma roundNearest_pow2_1000: "roundNearest 10715086071862673209484250490600018105614048117055336074437503883703510511249361224931983788156958581275946729175531468251871452856923140435984577574698574803934567774824230985421074605062371141877954182153046474983581941267398767559165543946077062914571196477686542167660429831652624386837205668069376 = Finite 10715086071862673209484250490600018105614048117055336074437503883703510511249361224931983788156958581275946729175531468251871452856923140435984577574698574803934567774824230985421074605062371141877954182153046474983581941267398767559165543946077062914571196477686542167660429831652624386837205668069376"
  using roundNearest_eq[of "1000" "10715086071862673209484250490600018105614048117055336074437503883703510511249361224931983788156958581275946729175531468251871452856923140435984577574698574803934567774824230985421074605062371141877954182153046474983581941267398767559165543946077062914571196477686542167660429831652624386837205668069376" 4503599627370496] by simp

lemma roundNearest_neg_pow2_500: "roundNearest (- 3273390607896141870013189696827599152216642046043064789483291368096133796404674554883270092325904157150886684127560071009217256545885393053328527589376) = Finite (- 3273390607896141870013189696827599152216642046043064789483291368096133796404674554883270092325904157150886684127560071009217256545885393053328527589376)"
  using roundNearest_eq[of "500" "- 3273390607896141870013189696827599152216642046043064789483291368096133796404674554883270092325904157150886684127560071009217256545885393053328527589376" 4503599627370496] by simp

lemma roundNearest_pow2_500: "roundNearest 3273390607896141870013189696827599152216642046043064789483291368096133796404674554883270092325904157150886684127560071009217256545885393053328527589376 = Finite 3273390607896141870013189696827599152216642046043064789483291368096133796404674554883270092325904157150886684127560071009217256545885393053328527589376"
  using roundNearest_eq[of "500" "3273390607896141870013189696827599152216642046043064789483291368096133796404674554883270092325904157150886684127560071009217256545885393053328527589376" 4503599627370496] by simp

lemma roundNearest_neg_1: "roundNearest (- 1) = Finite (- 1)"
  using roundNearest_eq[of "0" "- 1" 4503599627370496] by simp

lemma roundNearest_pow2_1100: "roundNearest 13582985290493858492773514283592667786034938469317445497485196697278130927542418487205392083207560592298578262953847383475038725543234929971155548342800628721885763499406390331782864144164680730766837160526223176512798435772129956553355286032203080380775759732320198985094884004069116123084147875437183658467465148948790552744165376 = PosInf"
  using roundNearest_overflow[of "13582985290493858492773514283592667786034938469317445497485196697278130927542418487205392083207560592298578262953847383475038725543234929971155548342800628721885763499406390331782864144164680730766837160526223176512798435772129956553355286032203080380775759732320198985094884004069116123084147875437183658467465148948790552744165376"] by simp

lemma Math_sqrt_3: "Math_sqrt (Finite 3) = Finite (3900231685776981 / 2251799813685248)"
  using roundNearest_sqrt_eq[of "0" "3" 7800463371553962]
  by (simp add: Math_sqrt_def power2_eq_square)

lemma Math_sqrt_25: "Math_sqrt (Finite 25) = Finite 5"
  using roundNearest_sqrt_eq[of "2" "25" 5629499534213120]
  by (simp add: Math_sqrt_def power2_eq_square)

lemma Math_sqrt_9: "Math_sqrt (Finite 9) = Finite 3"
  using roundNearest_sqrt_eq[of "1" "9" 6755399441055744]
  by (simp add: Math_sqrt_def power2_eq_square)

lemma Math_sqrt_1: "Math_sqrt (Finite 1) = Finite 1"
  using roundNearest_sqrt_eq[of "0" "1" 4503599627370496]
  by (simp add: Math_sqrt_def power2_eq_square)

lemma Math_sqrt_4: "Math_sqrt (Finite 4) = Finite 2"
  using roundNearest_sqrt_eq[of "1" "4" 4503599627370496]
  by (simp add: Math_sqrt_def power2_eq_square)

lemma Math_sqrt_2: "Math_sqrt (Finite 2) = Finite (6369051672525773 / 4503599627370496)"
  using roundNearest_sqrt_eq[of "0" "2" 6369051672525773]
  by (simp add: Math_sqrt_def power2_eq_square)

lemma Math_sqrt_18: "Math_sqrt (Finite 18) = Finite (4776788754394329 / 1125899906842624)"
  using roundNearest_sqrt_eq[of "2" "18" 4776788754394329]
  by (simp add: Math_sqrt_def power2_eq_square)

lemma Math_sqrt_pow2_1000: "Math_sqrt (Finite 10715086071862673209484250490600018105614048117055336074437503883703510511249361224931983788156958581275946729175531468251871452856923140435984577574698574803934567774824230985421074605062371141877954182153046474983581941267398767559165543946077062914571196477686542167660429831652624386837205668069376) = Finite 3273390607896141870013189696827599152216642046043064789483291368096133796404674554883270092325904157150886684127560071009217256545885393053328527589376"
  using roundNearest_sqrt_eq[of "500" "10715086071862673209484250490600018105614048117055336074437503883703510511249361224931983788156958581275946729175531468251871452856923140435984577574698574803934567774824230985421074605062371141877954182153046474983581941267398767559165543946077062914571196477686542167660429831652624386837205668069376" 4503599627370496]
  by (simp add: Math_sqrt_def power2_eq_square)

lemma Math_sqrt_5: "Math_sqrt (Finite 5) = Finite (629397181890197 / 281474976710656)"
  using roundNearest_sqrt_eq[of "1" "5" 5035177455121576]
  by (simp add: Math_sqrt_def power2_eq_square)

lemmas rounding_examples =
  roundNearest_1
  roundNearest_2
  roundNearest_3
  roundNearest_ratio_1
  roundNearest_ratio_2
  roundNearest_pow2_1200
  roundNearest_9
  roundNearest_16
  roundNearest_25
  roundNearest_15
  roundNearest_3_over_5
  roundNearest_4
  roundNearest_5
  roundNearest_4_over_5
  roundNearest_ratio_3
  roundNearest_ratio_4
  roundNearest_ratio_5
  roundNearest_ratio_6
  roundNearest_18
  roundNearest_6
  roundNearest_ratio_7
  roundNearest_ratio_8
  roundNearest_pow2_1000
  roundNearest_neg_pow2_500
  roundNearest_pow2_500
  roundNearest_neg_1
  roundNearest_pow2_1100
  Math_sqrt_3
  Math_sqrt_25
  Math_sqrt_9
  Math_sqrt_1
  Math_sqrt_4
  Math_sqrt_2
  Math_sqrt_18
  Math_sqrt_pow2_1000
  Math_sqrt_5


lemmas number_defs =
  numAdd_def numSub_def numMul_def numDiv_def numNeg_def isFinite_def isZero_def valueOf_def
  signBit_def signedZero_def signedInf_def truthy_def isPositive_def Let_def

lemma Math_sqrt_simps:
  "Math_sqrt NaN = NaN" "Math_sqrt PosInf = PosInf" "Math_sqrt NegInf = NaN"
  "Math_sqrt NegZero = NegZero" "Math_sqrt (Finite 0) = Finite 0"
  by (simp_all add: Math_sqrt_def)

lemma dotProduct_commute: "dotProduct a b = dotProduct b a"
proof -
  have "(\<lambda>i total. numAdd total (numMul (a ! i) (b ! i)))
          = (\<lambda>i total. numAdd total (numMul (b ! i) (a ! i)))"
    by (intro ext) (simp only: numMul_commute[of "a ! _"])
  then show ?thesis by (simp add: dotProduct_def min.commute)
qed

lemma cosineSimilarity_commute: "cosineSimilarity a b = cosineSimilarity b a"
  by (simp add: cosineSimilarity_def Let_def dotProduct_commute[of a b]
      numMul_commute[of "magnitude a"] disj_commute)

lemma cosineSimilarity_gridded: "gridded (cosineSimilarity a b)"
proof (cases "\<not> truthy (magnitude a) \<or> \<not> truthy (magnitude b)")
  case True
  then have "cosineSimilarity a b = Finite 0" by (auto simp: cosineSimilarity_def Let_def)
  then show ?thesis by (simp add: gridded_def onGrid_0)
next
  case False
  then have "cosineSimilarity a b = numDiv (dotProduct a b) (numMul (magnitude a) (magnitude b))"
    by (simp add: cosineSimilarity_def Let_def)
  then show ?thesis by (simp only: numDiv_gridded)
qed

lemma fold_squares_zero:
  "\<forall>v\<in>set z. isZero v \<Longrightarrow> fold (\<lambda>v total. numAdd total (numMul v v)) z (Finite 0) = Finite 0"
proof (induction z)
  case Nil
  show ?case by simp
next
  case (Cons v vs)
  then have "isZero v" by simp
  then have "numAdd (Finite 0) (numMul v v) = Finite 0"
    by (auto simp: numAdd_def numMul_def isZero_def isFinite_def valueOf_def signedZero_def)
  then show ?case using Cons by simp
qed

lemma magnitude_zeros: "\<forall>v\<in>set z. isZero v \<Longrightarrow> magnitude z = Finite 0"
  by (simp add: magnitude_def fold_squares_zero Math_sqrt_simps)

lemma dotProduct_take:
  "dotProduct (take (min (length a) (length b)) a) (take (min (length a) (length b)) b)
     = dotProduct a b"
proof -
  let ?m = "min (length a) (length b)"
  have "fold (\<lambda>i total. numAdd total (numMul (take ?m a ! i) (take ?m b ! i))) [0..<?m] (Finite 0)
          = fold (\<lambda>i total. numAdd total (numMul (a ! i) (b ! i))) [0..<?m] (Finite 0)"
    by (rule fold_cong) simp_all
  then show ?thesis by (simp add: dotProduct_def)
qed

text \<open>
  Claim C3, as stated: for vectors of equal nonzero length the similarity lies between
  -1 and 1. It fails: the similarity is the rounded quotient of a rounded dot product by
  a rounded product of rounded roots. The similarity of \<open>[1, 1, 1]\<close> with itself is
  \<open>3 / (\<surd>3 * \<surd>3)\<close> where the product of the two rounded roots is the double below 3,
  and the quotient is the double above 1, \<open>1 + 2 powi (- 52)\<close>. The similarity of
  \<open>[2 ^ 600]\<close> with itself is \<^verbatim>\<open>NaN\<close>, the square overflowing to an infinity, and no
  comparison with \<^verbatim>\<open>NaN\<close> holds.
\<close>

theorem cosineSimilarity_bounds_counterexample:
  "length [Finite 1, Finite 1, Finite 1] = length [Finite 1, Finite 1, Finite 1]
   \<and> cosineSimilarity [Finite 1, Finite 1, Finite 1] [Finite 1, Finite 1, Finite 1]
       = Finite (1 + 2 powi (- 52))
   \<and> \<not> numLe (cosineSimilarity [Finite 1, Finite 1, Finite 1] [Finite 1, Finite 1, Finite 1])
           (Finite 1)
   \<and> cosineSimilarity [Finite (2 ^ 600)] [Finite (2 ^ 600)] = NaN
   \<and> \<not> numLe (cosineSimilarity [Finite (2 ^ 600)] [Finite (2 ^ 600)]) (Finite 1)
   \<and> \<not> numLe (Finite (- 1)) (cosineSimilarity [Finite (2 ^ 600)] [Finite (2 ^ 600)])"
proof -
  have 1: "cosineSimilarity [Finite 1, Finite 1, Finite 1] [Finite 1, Finite 1, Finite 1]
       = Finite (1 + 2 powi (- 52))"
    by (simp add: cosineSimilarity_def magnitude_def dotProduct_def number_defs
        rounding_examples Math_sqrt_simps)
  have 2: "cosineSimilarity [Finite (2 ^ 600)] [Finite (2 ^ 600)] = NaN"
    by (simp add: cosineSimilarity_def magnitude_def dotProduct_def number_defs
        rounding_examples Math_sqrt_simps)
  have 3: "\<not> numLe (Finite (1 + 2 powi (- 52))) (Finite 1)"
    by (simp add: numLe_def isFinite_def valueOf_def)
  have 4: "\<not> numLe NaN (Finite 1)" "\<not> numLe (Finite (- 1)) NaN"
    by (simp_all add: numLe_def)
  from 1 2 3 4 show ?thesis by (simp only: simp_thms)
qed

text \<open>
  Claim C3, amended. For all vectors \<open>a\<close> and \<open>b\<close>, of any lengths, the similarity of \<open>a\<close>
  with \<open>b\<close> is the similarity of \<open>b\<close> with \<open>a\<close>, the same number (or \<^verbatim>\<open>NaN\<close> on both
  sides); a vector whose magnitude is falsy (a zero or \<^verbatim>\<open>NaN\<close>) has similarity 0 with
  every vector, on either side, and a vector of zeros has magnitude 0. No bound is
  claimed for the value.
\<close>

theorem cosineSimilarity_symmetric_zero:
  "cosineSimilarity a b = cosineSimilarity b a
   \<and> (\<not> truthy (magnitude z) \<longrightarrow>
        cosineSimilarity z c = Finite 0 \<and> cosineSimilarity c z = Finite 0)
   \<and> ((\<forall>v\<in>set z. isZero v) \<longrightarrow>
        magnitude z = Finite 0 \<and> cosineSimilarity z c = Finite 0
        \<and> cosineSimilarity c z = Finite 0)"
proof -
  have sym: "cosineSimilarity a b = cosineSimilarity b a"
    by (rule cosineSimilarity_commute)
  have zero: "\<not> truthy (magnitude z) \<longrightarrow>
        cosineSimilarity z c = Finite 0 \<and> cosineSimilarity c z = Finite 0"
    by (simp add: cosineSimilarity_def Let_def)
  have zeros: "(\<forall>v\<in>set z. isZero v) \<longrightarrow>
        magnitude z = Finite 0 \<and> cosineSimilarity z c = Finite 0
        \<and> cosineSimilarity c z = Finite 0"
    by (simp add: cosineSimilarity_def Let_def magnitude_zeros truthy_def isZero_def)
  from sym zero zeros show ?thesis by (intro conjI)
qed

theorem cosineSimilarity_symmetric_zero_witness:
  "cosineSimilarity [Finite 3, Finite 4] [Finite 3] = cosineSimilarity [Finite 3] [Finite 3, Finite 4]
   \<and> list_all isZero [Finite 0, NegZero]
   \<and> \<not> truthy (magnitude [Finite 0, NegZero])
   \<and> magnitude [Finite 0, NegZero] = Finite 0
   \<and> cosineSimilarity [Finite 0, NegZero] [Finite 1, Finite 2] = Finite 0
   \<and> cosineSimilarity [Finite 1, Finite 2] [Finite 0, NegZero] = Finite 0"
proof -
  have z: "\<forall>v\<in>set [Finite 0, NegZero]. isZero v" by (simp add: isZero_def)
  have z': "list_all isZero [Finite 0, NegZero]" by (simp add: isZero_def)
  note t = cosineSimilarity_symmetric_zero[of "[Finite 3, Finite 4]" "[Finite 3]"
             "[Finite 0, NegZero]" "[Finite 1, Finite 2]"]
  note 1 = t[THEN conjunct1]
  have m: "magnitude [Finite 0, NegZero] = Finite 0
     \<and> cosineSimilarity [Finite 0, NegZero] [Finite 1, Finite 2] = Finite 0
     \<and> cosineSimilarity [Finite 1, Finite 2] [Finite 0, NegZero] = Finite 0"
    using t[THEN conjunct2, THEN conjunct2] z by blast
  have tr: "\<not> truthy (magnitude [Finite 0, NegZero])"
    using m by (simp add: truthy_def isZero_def)
  note m1 = m[THEN conjunct1] and m2 = m[THEN conjunct2, THEN conjunct1]
    and m3 = m[THEN conjunct2, THEN conjunct2]
  from 1 z' tr m1 m2 m3 show ?thesis by (intro conjI)
qed

text \<open>
  Claim C4, as stated: for vectors of different lengths and nonzero magnitude the
  similarity is the cosine of the two vectors cut to their shared prefix. It fails: the
  code cuts only the dot product, and divides by the magnitudes of the whole vectors.
  For \<open>a = [3, 4]\<close> and \<open>b = [3]\<close> the code returns the double nearest to \<open>9 / (5 * 3)\<close>,
  the cosine of the prefixes \<open>[3]\<close> and \<open>[3]\<close> is 1.
\<close>

theorem cosineSimilarity_prefix_counterexample:
  "length [Finite 3, Finite 4] \<noteq> length [Finite 3]
   \<and> magnitude [Finite 3, Finite 4] = Finite 5 \<and> magnitude [Finite 3] = Finite 3
   \<and> cosineSimilarity [Finite 3, Finite 4] [Finite 3] = Finite (5404319552844595 / 2 ^ 53)
   \<and> prefixCosine_spec [Finite 3, Finite 4] [Finite 3] = Finite 1"
  by (simp add: prefixCosine_spec_def cosineSimilarity_def magnitude_def dotProduct_def
        number_defs rounding_examples Math_sqrt_simps)

text \<open>
  Claim C4, amended: when both magnitudes are truthy (whatever the two lengths), the
  similarity is the dot product of the two shared prefixes divided by the product of the
  magnitudes of the two whole, uncut vectors.
\<close>

theorem cosineSimilarity_prefix_dot:
  "truthy (magnitude a) \<Longrightarrow> truthy (magnitude b) \<Longrightarrow>
   cosineSimilarity a b
     = numDiv (dotProduct (take (min (length a) (length b)) a) (take (min (length a) (length b)) b))
         (numMul (magnitude a) (magnitude b))"
  by (simp add: cosineSimilarity_def dotProduct_take)

theorem cosineSimilarity_prefix_dot_witness:
  "truthy (magnitude [Finite 3, Finite 4]) \<and> truthy (magnitude [Finite 3])
   \<and> cosineSimilarity [Finite 3, Finite 4] [Finite 3]
       = numDiv (dotProduct [Finite 3] [Finite 3])
           (numMul (magnitude [Finite 3, Finite 4]) (magnitude [Finite 3]))"
proof -
  have m: "truthy (magnitude [Finite 3, Finite 4])" "truthy (magnitude [Finite 3])"
    by (simp_all add: magnitude_def number_defs rounding_examples Math_sqrt_simps)
  show ?thesis
    using m cosineSimilarity_prefix_dot[OF m] by simp
qed

subsection \<open>Ranking\<close>

lemma insertSorted_insort_key:
  "(\<And>y. y \<in> set ys \<Longrightarrow> (\<not> isPositive (cmp x y) \<longleftrightarrow> f x \<le> f y))
   \<Longrightarrow> insertSorted cmp x ys = insort_key f x ys"
  by (induction ys) auto

lemma array_sort_sort_key:
  assumes "\<And>a b. a \<in> set xs \<Longrightarrow> b \<in> set xs \<Longrightarrow> (\<not> isPositive (cmp a b) \<longleftrightarrow> f a \<le> f b)"
  shows "array_sort cmp xs = sort_key f xs"
  using assms unfolding array_sort_def
proof (induction xs)
  case Nil
  show ?case by simp
next
  case (Cons x xs)
  have "foldr (insertSorted cmp) xs [] = sort_key f xs"
    using Cons by simp
  moreover have "insertSorted cmp x (sort_key f xs) = insort_key f x (sort_key f xs)"
    by (rule insertSorted_insort_key) (simp add: Cons.prems)
  ultimately show ?case by simp
qed

lemma slice_from_0:
  "0 \<le> k \<Longrightarrow> slice xs 0 k = take (nat k) xs"
  by (auto simp: slice_def Let_def min_def max_def)

lemma insort_key_map:
  "insort_key f (g x) (map g ys) = map g (insort_key (\<lambda>a. f (g a)) x ys)"
  by (induction ys) simp_all

lemma sort_key_map: "sort_key f (map g xs) = map g (sort_key (\<lambda>a. f (g a)) xs)"
  by (induction xs) (simp_all add: insort_key_map)

lemma descKey_le:
  "a \<noteq> NaN \<Longrightarrow> b \<noteq> NaN \<Longrightarrow> descKey a \<le> descKey b \<longleftrightarrow> numLe b a"
  by (cases a; cases b) (simp_all add: descKey_def numLe_def isFinite_def valueOf_def)

lemma descKey_eq:
  "a \<noteq> NaN \<Longrightarrow> b \<noteq> NaN \<Longrightarrow> descKey a = descKey b \<longleftrightarrow> numEq a b"
  by (cases a; cases b) (auto simp: descKey_def numEq_def isZero_def)

lemma searchLocalIndex_sort_key:
  assumes "\<forall>it\<in>set (items index). cosineSimilarity q (embedding it) \<noteq> NaN"
    and "0 \<le> (case topK_arg of None \<Rightarrow> 4 | Some k \<Rightarrow> k)"
  shows "searchLocalIndex index q topK_arg =
     take (nat (case topK_arg of None \<Rightarrow> 4 | Some k \<Rightarrow> k))
       (sort_key (\<lambda>it. descKey (cosineSimilarity q (embedding it))) (items index))"
proof -
  let ?mk = "\<lambda>it. \<lparr>item = it, score = cosineSimilarity q (embedding it)\<rparr>"
  have "array_sort (\<lambda>a b. numSub (score b) (score a)) (map ?mk (items index))
          = sort_key (\<lambda>e. descKey (score e)) (map ?mk (items index))"
  proof (rule array_sort_sort_key)
    fix a b
    assume "a \<in> set (map ?mk (items index))" "b \<in> set (map ?mk (items index))"
    then obtain x y where x: "x \<in> set (items index)" "a = ?mk x"
      and y: "y \<in> set (items index)" "b = ?mk y"
      by auto
    have "score a \<noteq> NaN" "score b \<noteq> NaN" using x y assms(1) by simp_all
    moreover have "gridded (score a)" "gridded (score b)"
      using x y by (simp_all add: cosineSimilarity_gridded)
    ultimately show "\<not> isPositive (numSub (score b) (score a))
                      \<longleftrightarrow> descKey (score a) \<le> descKey (score b)"
      by (rule comparator_key)
  qed
  also have "\<dots> = map ?mk (sort_key (\<lambda>it. descKey (cosineSimilarity q (embedding it))) (items index))"
    by (simp add: sort_key_map comp_def)
  finally show ?thesis using assms(2)
    by (simp add: searchLocalIndex_def Let_def slice_from_0 take_map comp_def)
qed

lemma ranked_take_sorted:
  assumes "\<forall>it\<in>set xs. f it \<noteq> NaN"
  shows "sorted_wrt (\<lambda>x y. numLe (f y) (f x)) (take n (sort_key (\<lambda>it. descKey (f it)) xs))"
proof -
  let ?s = "sort_key (\<lambda>it. descKey (f it)) xs"
  have "sorted (map (\<lambda>it. descKey (f it)) ?s)"
    by (rule sorted_sort_key)
  then have "sorted_wrt (\<lambda>x y. descKey (f x) \<le> descKey (f y)) ?s"
    by (simp add: sorted_map)
  then have "sorted_wrt (\<lambda>x y. numLe (f y) (f x)) ?s"
  proof (rule sorted_wrt_mono_rel[rotated])
    fix x y
    assume "x \<in> set ?s" "y \<in> set ?s" "descKey (f x) \<le> descKey (f y)"
    then show "numLe (f y) (f x)" using assms by (simp add: descKey_le)
  qed
  then show ?thesis by (rule sorted_wrt_take)
qed

lemma ranked_take_stable:
  assumes "\<forall>it\<in>set xs. f it \<noteq> NaN"
  shows "prefix (filter (\<lambda>it. numEq (f it) s) (take n (sort_key (\<lambda>it. descKey (f it)) xs)))
                (filter (\<lambda>it. numEq (f it) s) xs)"
proof (cases "s = NaN")
  case True
  then show ?thesis by (simp add: numEq_def)
next
  case False
  let ?s = "sort_key (\<lambda>it. descKey (f it)) xs"
  have eq: "filter (\<lambda>it. numEq (f it) s) ys = filter (\<lambda>it. descKey (f it) = descKey s) ys"
    if "set ys \<subseteq> set xs" for ys
    using that assms False by (intro filter_cong) (auto simp: descKey_eq)
  have "filter (\<lambda>it. descKey (f it) = descKey s) ?s = filter (\<lambda>it. descKey (f it) = descKey s) xs"
    by (rule sort_key_stable)
  then have "filter (\<lambda>it. numEq (f it) s) ?s = filter (\<lambda>it. numEq (f it) s) xs"
    using eq[of ?s] eq[of xs] by simp
  moreover have "prefix (filter (\<lambda>it. numEq (f it) s) (take n ?s))
                        (filter (\<lambda>it. numEq (f it) s) ?s)"
    by (intro filter_mono_prefix take_is_prefix)
  ultimately show ?thesis by simp
qed

lemma searchLocalIndex_example:
  "searchLocalIndex exampleIndex [Finite 1, Finite 0] (Some 2)
     = [mkItem [Finite 1, Finite 0] 0, mkItem [Finite 2, Finite 0] 3]"
  by (simp add: searchLocalIndex_def exampleIndex_def array_sort_def slice_def
       cosineSimilarity_def magnitude_def dotProduct_def mkItem_def number_defs
       rounding_examples Math_sqrt_simps)

text \<open>
  The two records of this index have the exact cosine 1 with the query \<open>[1, 1]\<close>. In
  doubles the first scores \<open>1 - 2 powi (- 52)\<close> and the second 1, so the second is
  returned for \<open>topK = 1\<close>.
\<close>

lemma searchLocalIndex_rounding_example:
  "cosineSimilarity [Finite 1, Finite 1] [Finite 1, Finite 1] = Finite (1 - 2 powi (- 52))"
  "cosineSimilarity [Finite 1, Finite 1] [Finite 3, Finite 3] = Finite 1"
  "searchLocalIndex roundingIndex [Finite 1, Finite 1] (Some 1) = [mkItem [Finite 3, Finite 3] 1]"
  by (simp_all add: searchLocalIndex_def roundingIndex_def array_sort_def slice_def
       cosineSimilarity_def magnitude_def dotProduct_def mkItem_def number_defs
       rounding_examples Math_sqrt_simps)

text \<open>
  Claim C1, as stated for every index and query vector: the records are returned in
  order of non-increasing similarity. It fails when a similarity is \<^verbatim>\<open>NaN\<close>. With the
  query \<open>[2 ^ 500]\<close> the records \<open>[- 1]\<close>, \<open>[2 ^ 600]\<close> and \<open>[1]\<close> score -1, \<^verbatim>\<open>NaN\<close> (the
  dot product and a magnitude overflow, and \<open>\<infinity> / \<infinity>\<close> is \<^verbatim>\<open>NaN\<close>) and 1. The
  comparator returns \<^verbatim>\<open>NaN\<close> for each neighbouring pair, which the sort reads as equal:
  the three records stay in their order, the one that scores -1 before the one that
  scores 1.
\<close>

theorem searchLocalIndex_nan_counterexample:
  "map (\<lambda>it. cosineSimilarity [Finite (2 ^ 500)] (embedding it)) (items overflowIndex)
     = [Finite (- 1), NaN, Finite 1]
   \<and> searchLocalIndex overflowIndex [Finite (2 ^ 500)] (Some 3) = items overflowIndex
   \<and> \<not> sorted_wrt (\<lambda>x y. numLe (cosineSimilarity [Finite (2 ^ 500)] (embedding y))
                             (cosineSimilarity [Finite (2 ^ 500)] (embedding x)))
         (searchLocalIndex overflowIndex [Finite (2 ^ 500)] (Some 3))"
proof -
  have 1: "map (\<lambda>it. cosineSimilarity [Finite (2 ^ 500)] (embedding it)) (items overflowIndex)
     = [Finite (- 1), NaN, Finite 1]"
    by (simp add: overflowIndex_def mkItem_def cosineSimilarity_def magnitude_def
        dotProduct_def number_defs rounding_examples Math_sqrt_simps)
  have 2: "searchLocalIndex overflowIndex [Finite (2 ^ 500)] (Some 3) = items overflowIndex"
    using 1
    by (simp add: searchLocalIndex_def overflowIndex_def array_sort_def slice_def number_defs)
  have 3: "\<not> sorted_wrt (\<lambda>x y. numLe (cosineSimilarity [Finite (2 ^ 500)] (embedding y))
                             (cosineSimilarity [Finite (2 ^ 500)] (embedding x)))
         (items overflowIndex)"
    using 1 by (simp add: overflowIndex_def numLe_def)
  from 1 2 3 show ?thesis by (simp only: simp_thms)
qed

text \<open>
  Claim C1, amended. For every index and query vector such that no record's similarity
  to the query is \<^verbatim>\<open>NaN\<close>, and every \<open>topK \<ge> 0\<close>, also left out: at most \<open>min topK n\<close>
  records are returned, of the \<open>n\<close> records of the index; they are in order of
  non-increasing similarity to the query; for every score, the records returned with
  that score are, in order, an initial segment of the index's records with that score
  (the sort is stable); leaving \<open>topK\<close> out is \<open>topK = 4\<close>.
\<close>

theorem searchLocalIndex_ranked:
  assumes "\<forall>it\<in>set (items index). cosineSimilarity q (embedding it) \<noteq> NaN"
    and "topK = None \<or> (\<exists>k. topK = Some k \<and> 0 \<le> k)"
  shows "int (length (searchLocalIndex index q topK))
           \<le> min (case topK of None \<Rightarrow> 4 | Some k \<Rightarrow> k) (int (length (items index)))
     \<and> sorted_wrt (\<lambda>x y. numLe (cosineSimilarity q (embedding y)) (cosineSimilarity q (embedding x)))
         (searchLocalIndex index q topK)
     \<and> (\<forall>s. prefix (filter (\<lambda>it. numEq (cosineSimilarity q (embedding it)) s)
                        (searchLocalIndex index q topK))
                   (filter (\<lambda>it. numEq (cosineSimilarity q (embedding it)) s) (items index)))
     \<and> set (searchLocalIndex index q topK) \<subseteq> set (items index)
     \<and> searchLocalIndex index q None = searchLocalIndex index q (Some 4)"
proof -
  let ?k = "case topK of None \<Rightarrow> 4 | Some k \<Rightarrow> k"
  let ?f = "\<lambda>it. cosineSimilarity q (embedding it)"
  have k: "0 \<le> ?k" using assms(2) by auto
  have eq: "searchLocalIndex index q topK
              = take (nat ?k) (sort_key (\<lambda>it. descKey (?f it)) (items index))"
    using assms(1) k by (rule searchLocalIndex_sort_key)
  have len: "int (length (searchLocalIndex index q topK)) \<le> min ?k (int (length (items index)))"
    using k unfolding eq by simp
  have srt: "sorted_wrt (\<lambda>x y. numLe (?f y) (?f x)) (searchLocalIndex index q topK)"
    unfolding eq using assms(1) by (rule ranked_take_sorted)
  have stb: "\<forall>s. prefix (filter (\<lambda>it. numEq (?f it) s) (searchLocalIndex index q topK))
                        (filter (\<lambda>it. numEq (?f it) s) (items index))"
    unfolding eq using ranked_take_stable[of "items index" ?f, OF assms(1)] by blast
  have sub: "set (searchLocalIndex index q topK) \<subseteq> set (items index)"
    unfolding eq
    using set_take_subset[of "nat ?k" "sort_key (\<lambda>it. descKey (?f it)) (items index)"] by simp
  have dflt: "searchLocalIndex index q None = searchLocalIndex index q (Some 4)"
    by (simp add: searchLocalIndex_def)
  from len srt stb sub dflt show ?thesis by (intro conjI)
qed

theorem searchLocalIndex_ranked_witness:
  "list_all (\<lambda>it. cosineSimilarity [Finite 1, Finite 0] (embedding it) \<noteq> NaN)
     (items exampleIndex)
   \<and> int (length (searchLocalIndex exampleIndex [Finite 1, Finite 0] (Some 2)))
       \<le> min 2 (int (length (items exampleIndex)))
   \<and> sorted_wrt (\<lambda>x y. numLe (cosineSimilarity [Finite 1, Finite 0] (embedding y))
                          (cosineSimilarity [Finite 1, Finite 0] (embedding x)))
       (searchLocalIndex exampleIndex [Finite 1, Finite 0] (Some 2))
   \<and> searchLocalIndex exampleIndex [Finite 1, Finite 0] (Some 2)
       = [mkItem [Finite 1, Finite 0] 0, mkItem [Finite 2, Finite 0] 3]
   \<and> searchLocalIndex exampleIndex [Finite 1, Finite 0] None
       = searchLocalIndex exampleIndex [Finite 1, Finite 0] (Some 4)"
proof -
  have h: "\<forall>it\<in>set (items exampleIndex). cosineSimilarity [Finite 1, Finite 0] (embedding it) \<noteq> NaN"
    by (simp add: exampleIndex_def mkItem_def cosineSimilarity_def magnitude_def
        dotProduct_def number_defs rounding_examples Math_sqrt_simps)
  have k: "Some 2 = None \<or> (\<exists>k::int. Some 2 = Some k \<and> 0 \<le> k)" by simp
  have t: "int (length (searchLocalIndex exampleIndex [Finite 1, Finite 0] (Some 2)))
           \<le> min (case Some 2 of None \<Rightarrow> 4 | Some k \<Rightarrow> k) (int (length (items exampleIndex)))
     \<and> sorted_wrt (\<lambda>x y. numLe (cosineSimilarity [Finite 1, Finite 0] (embedding y))
                            (cosineSimilarity [Finite 1, Finite 0] (embedding x)))
         (searchLocalIndex exampleIndex [Finite 1, Finite 0] (Some 2))
     \<and> (\<forall>s. prefix (filter (\<lambda>it. numEq (cosineSimilarity [Finite 1, Finite 0] (embedding it)) s)
                        (searchLocalIndex exampleIndex [Finite 1, Finite 0] (Some 2)))
                   (filter (\<lambda>it. numEq (cosineSimilarity [Finite 1, Finite 0] (embedding it)) s)
                        (items exampleIndex)))
     \<and> set (searchLocalIndex exampleIndex [Finite 1, Finite 0] (Some 2)) \<subseteq> set (items exampleIndex)
     \<and> searchLocalIndex exampleIndex [Finite 1, Finite 0] None
         = searchLocalIndex exampleIndex [Finite 1, Finite 0] (Some 4)"
    using h k by (rule searchLocalIndex_ranked)
  have 1: "int (length (searchLocalIndex exampleIndex [Finite 1, Finite 0] (Some 2)))
       \<le> min 2 (int (length (items exampleIndex)))"
    using t[THEN conjunct1] by simp
  note 2 = t[THEN conjunct2, THEN conjunct1]
  note 5 = t[THEN conjunct2, THEN conjunct2, THEN conjunct2, THEN conjunct2]
  have h': "list_all (\<lambda>it. cosineSimilarity [Finite 1, Finite 0] (embedding it) \<noteq> NaN)
     (items exampleIndex)"
    using h by (simp only: list_all_iff)
  from h' 1 2 searchLocalIndex_example 5 show ?thesis by (intro conjI)
qed

subsection \<open>The chunker\<close>

lemma slice_window:
  "s \<le> length xs \<Longrightarrow> slice xs (int s) (int s + int w) = take w (drop s xs)"
proof -
  assume le: "s \<le> length xs"
  have "nat (min (int s + int w) (int (length xs)) - int s) = min w (length xs - s)"
    using le by (simp add: min_def) linarith
  then show ?thesis using le by (simp add: slice_def Let_def min_def)
qed

lemma slice_to_end:
  "s \<le> length xs \<Longrightarrow> slice xs (int s) (int (length xs)) = drop s xs"
  by (auto simp: slice_def Let_def min_def nat_diff_distrib')

lemma splitLoop_windows:
  assumes "w = nat chunkSize" "st = nat (chunkSize - overlap)"
    and "1 \<le> chunkSize" "0 \<le> overlap" "overlap \<le> chunkSize - 1" "s < length normalized"
  shows "splitLoop normalized chunkSize overlap (int s) chunks
           = Some (chunks @ windows normalized w st s)"
  using assms
proof (induction normalized w st s arbitrary: chunks rule: windows.induct)
  case (1 xs w st s)
  have st: "0 < st" "int st = chunkSize - overlap" "int w = chunkSize"
    using "1.prems" by simp_all
  show ?case
  proof (cases "s + w < length xs")
    case True
    then have stop: "min (int s + chunkSize) (int (length xs)) = int s + int w"
      using st by simp
    have next_lt: "s + st < length xs" using True st "1.prems" by linarith
    have a: "int s < int (length xs)" using "1.prems" by simp
    have b: "min (int s + chunkSize) (int (length xs)) = int s + chunkSize"
      using stop st by simp
    have c: "int s + chunkSize \<noteq> int (length xs)" using True st by simp
    have d: "slice xs (int s) (int s + chunkSize) = take w (drop s xs)"
      using slice_window[of s xs w] "1.prems" st by simp
    have e: "int s + chunkSize - overlap = int (s + st)" using st by simp
    have "splitLoop xs chunkSize overlap (int s) chunks
            = splitLoop xs chunkSize overlap (int (s + st)) (chunks @ [take w (drop s xs)])"
      by (subst splitLoop.simps) (simp only: a b c d e Let_def if_True if_False simp_thms)
    also have "\<dots> = Some ((chunks @ [take w (drop s xs)]) @ windows xs w st (s + st))"
      using True st next_lt "1.prems" by (intro "1.IH") simp_all
    also have "\<dots> = Some (chunks @ windows xs w st s)"
      using True st by (subst (2) windows.simps) simp
    finally show ?thesis .
  next
    case False
    then have stop: "min (int s + chunkSize) (int (length xs)) = int (length xs)"
      using st by simp
    have a: "int s < int (length xs)" using "1.prems" by simp
    have d: "slice xs (int s) (int (length xs)) = drop s xs"
      using slice_to_end[of s xs] "1.prems" by simp
    have "splitLoop xs chunkSize overlap (int s) chunks = Some (chunks @ [drop s xs])"
      by (subst splitLoop.simps) (simp only: a stop d Let_def if_True simp_thms)
    also have "\<dots> = Some (chunks @ windows xs w st s)"
      using False by (subst windows.simps) simp
    finally show ?thesis .
  qed
qed

lemma windows_nonempty: "windows xs w st s \<noteq> []"
  by (subst windows.simps) simp

lemma windows_chunk_lengths:
  "0 < w \<Longrightarrow> 0 < st \<Longrightarrow> st \<le> w \<Longrightarrow> s < length xs \<Longrightarrow> c \<in> set (windows xs w st s) \<Longrightarrow>
     c \<noteq> [] \<and> length c \<le> w"
proof (induction xs w st s rule: windows.induct)
  case (1 xs w st s)
  show ?case
  proof (cases "s + w < length xs")
    case True
    then have unf: "windows xs w st s = take w (drop s xs) # windows xs w st (s + st)"
      using "1.prems" by (subst windows.simps) simp
    with "1.prems" have "c = take w (drop s xs) \<or> c \<in> set (windows xs w st (s + st))"
      by simp
    then show ?thesis
    proof
      assume "c = take w (drop s xs)"
      then show ?thesis using True "1.prems" by simp
    next
      assume "c \<in> set (windows xs w st (s + st))"
      then show ?thesis using True "1.prems" by (intro "1.IH") simp_all
    qed
  next
    case False
    then have unf: "windows xs w st s = [drop s xs]"
      by (subst windows.simps) simp
    with "1.prems" have "c = drop s xs"
      by simp
    then show ?thesis using False "1.prems" by simp
  qed
qed

lemma windows_full_but_last:
  "0 < st \<Longrightarrow> c \<in> set (butlast (windows xs w st s)) \<Longrightarrow> length c = w"
proof (induction xs w st s rule: windows.induct)
  case (1 xs w st s)
  show ?case
  proof (cases "s + w < length xs")
    case True
    then have unf: "windows xs w st s = take w (drop s xs) # windows xs w st (s + st)"
      using "1.prems" by (subst windows.simps) simp
    with "1.prems" have "c = take w (drop s xs) \<or> c \<in> set (butlast (windows xs w st (s + st)))"
      by (simp add: windows_nonempty)
    then show ?thesis
    proof
      assume "c = take w (drop s xs)"
      then show ?thesis using True by simp
    next
      assume "c \<in> set (butlast (windows xs w st (s + st)))"
      then show ?thesis using True "1.prems" by (intro "1.IH") simp_all
    qed
  next
    case False
    then have unf: "windows xs w st s = [drop s xs]"
      by (subst windows.simps) simp
    with "1.prems" show ?thesis by simp
  qed
qed

lemma windows_nth:
  "0 < st \<Longrightarrow> i < length (windows xs w st s) \<Longrightarrow>
     windows xs w st s ! i = take w (drop (s + i * st) xs)"
proof (induction xs w st s arbitrary: i rule: windows.induct)
  case (1 xs w st s)
  show ?case
  proof (cases "s + w < length xs")
    case True
    then have unf: "windows xs w st s = take w (drop s xs) # windows xs w st (s + st)"
      using "1.prems" by (subst windows.simps) simp
    show ?thesis
    proof (cases i)
      case 0
      then show ?thesis by (simp add: unf)
    next
      case (Suc j)
      then have "j < length (windows xs w st (s + st))" using "1.prems" unf by simp
      then have "windows xs w st (s + st) ! j = take w (drop (s + st + j * st) xs)"
        using True "1.prems" by (intro "1.IH") simp_all
      then show ?thesis using Suc by (simp add: unf add.assoc)
    qed
  next
    case False
    then have unf: "windows xs w st s = [drop s xs]"
      by (subst windows.simps) simp
    then show ?thesis using "1.prems" False by simp
  qed
qed

lemma windows_hd_length:
  "s + ov < length xs \<Longrightarrow> ov \<le> w \<Longrightarrow> ov \<le> length (hd (windows xs w st s))"
  by (subst windows.simps) auto

lemma windows_join:
  "0 < st \<Longrightarrow> st \<le> w \<Longrightarrow> joinChunks_spec (w - st) (windows xs w st s) = drop s xs"
proof (induction xs w st s rule: windows.induct)
  case (1 xs w st s)
  show ?case
  proof (cases "s + w < length xs")
    case True
    let ?W = "windows xs w st (s + st)"
    have unf: "windows xs w st s = take w (drop s xs) # ?W"
      using True "1.prems" by (subst windows.simps) simp
    have IH: "joinChunks_spec (w - st) ?W = drop (s + st) xs"
      using True "1.prems" by (intro "1.IH") simp_all
    obtain c cs where W: "?W = c # cs"
      using windows_nonempty[of xs w st "s + st"] by (cases ?W) auto
    have "w - st \<le> length (hd ?W)"
      using True "1.prems" by (intro windows_hd_length) simp_all
    then have "w - st \<le> length c" using W by simp
    then have "concat (map (drop (w - st)) ?W) = drop (w - st) (joinChunks_spec (w - st) ?W)"
      using W by simp
    also have "\<dots> = drop w (drop s xs)"
      using "1.prems" by (simp add: IH add.commute)
    finally have cc: "concat (map (drop (w - st)) ?W) = drop w (drop s xs)" .
    have "joinChunks_spec (w - st) (windows xs w st s)
            = take w (drop s xs) @ concat (map (drop (w - st)) ?W)"
      by (simp only: unf joinChunks_spec.simps)
    also have "\<dots> = take w (drop s xs) @ drop w (drop s xs)"
      by (simp only: cc)
    also have "\<dots> = drop s xs"
      by (rule append_take_drop_id)
    finally show ?thesis .
  next
    case False
    then show ?thesis by (subst windows.simps) simp
  qed
qed

lemma windows_nth_start:
  "0 < st \<Longrightarrow> st \<le> w \<Longrightarrow> s < length xs \<Longrightarrow> i < length (windows xs w st s) \<Longrightarrow>
     s + i * st < length xs"
proof (induction xs w st s arbitrary: i rule: windows.induct)
  case (1 xs w st s)
  show ?case
  proof (cases "s + w < length xs")
    case True
    then have unf: "windows xs w st s = take w (drop s xs) # windows xs w st (s + st)"
      using "1.prems" by (subst windows.simps) simp
    show ?thesis
    proof (cases i)
      case 0
      then show ?thesis using "1.prems" by simp
    next
      case (Suc j)
      then have "j < length (windows xs w st (s + st))" using "1.prems" unf by simp
      then have "s + st + j * st < length xs"
        using True "1.prems" by (intro "1.IH") simp_all
      then show ?thesis using Suc by (simp add: add.assoc)
    qed
  next
    case False
    then have unf: "windows xs w st s = [drop s xs]"
      by (subst windows.simps) simp
    then show ?thesis using "1.prems" False by simp
  qed
qed

lemma splitText_windows:
  assumes "1 \<le> chunkSize"
  shows "splitText text chunkSize chunkOverlap =
     Some (if normalizeText text = [] then []
           else windows (normalizeText text) (nat chunkSize)
                  (nat (chunkSize - min (max chunkOverlap 0) (chunkSize - 1))) 0)"
proof (cases "normalizeText text = []")
  case True
  then show ?thesis by (simp add: splitText_def)
next
  case False
  have "splitLoop (normalizeText text) chunkSize (min (max chunkOverlap 0) (chunkSize - 1)) (int 0) []
          = Some ([] @ windows (normalizeText text) (nat chunkSize)
                  (nat (chunkSize - min (max chunkOverlap 0) (chunkSize - 1))) 0)"
    using assms False by (intro splitLoop_windows) simp_all
  then show ?thesis using False by (simp add: splitText_def Let_def)
qed


text \<open>
  Claim C2. For every text, every \<open>chunkSize \<ge> 1\<close> and every \<open>chunkOverlap\<close>, with
  \<open>overlap\<close> the overlap clamped to \<open>[0, chunkSize - 1]\<close>: the chunker returns, fragment
  \<open>i\<close> is the window of the normalized text that starts at \<open>i * (chunkSize - overlap)\<close>
  and is \<open>chunkSize\<close> long (cut at the end of the text), no fragment is empty or longer
  than \<open>chunkSize\<close>, every fragment but the last has length \<open>chunkSize\<close>, and the first
  fragment followed by every later fragment without its first \<open>overlap\<close> characters is
  the normalized text.
\<close>

theorem splitText_sliding_window:
  fixes chunkSize chunkOverlap :: int
  defines "overlap \<equiv> min (max chunkOverlap 0) (chunkSize - 1)"
  assumes "1 \<le> chunkSize"
  shows "\<exists>chunks. splitText text chunkSize chunkOverlap = Some chunks
     \<and> (\<forall>c\<in>set chunks. c \<noteq> [] \<and> int (length c) \<le> chunkSize)
     \<and> (\<forall>c\<in>set (butlast chunks). int (length c) = chunkSize)
     \<and> (\<forall>i<length chunks.
           chunks ! i = slice (normalizeText text) (int i * (chunkSize - overlap))
                          (int i * (chunkSize - overlap) + chunkSize))
     \<and> joinChunks_spec (nat overlap) chunks = normalizeText text"
proof (cases "normalizeText text = []")
  case True
  then have "splitText text chunkSize chunkOverlap = Some []"
    by (simp add: splitText_def)
  then show ?thesis using True by simp
next
  case False
  define w where "w = nat chunkSize"
  define st where "st = nat (chunkSize - overlap)"
  define W where "W = windows (normalizeText text) w st 0"
  have ov: "0 \<le> overlap" "overlap \<le> chunkSize - 1"
    using assms by (simp_all add: overlap_def)
  have wst: "0 < w" "0 < st" "st \<le> w" "int w = chunkSize" "int st = chunkSize - overlap"
            "w - st = nat overlap"
    unfolding w_def st_def using assms(2) ov by linarith+
  have pos: "0 < length (normalizeText text)" using False by simp
  have res: "splitText text chunkSize chunkOverlap = Some W"
    using splitText_windows[OF assms(2), of "text" chunkOverlap] False
    by (simp add: W_def w_def st_def overlap_def)
  have len: "\<forall>c\<in>set W. c \<noteq> [] \<and> int (length c) \<le> chunkSize"
  proof
    fix c assume "c \<in> set W"
    then have "c \<noteq> [] \<and> length c \<le> w"
      unfolding W_def using wst pos by (intro windows_chunk_lengths) simp_all
    then show "c \<noteq> [] \<and> int (length c) \<le> chunkSize" using wst by linarith
  qed
  have full: "\<forall>c\<in>set (butlast W). int (length c) = chunkSize"
  proof
    fix c assume "c \<in> set (butlast W)"
    then have "length c = w"
      unfolding W_def using wst by (intro windows_full_but_last[of st]) simp_all
    then show "int (length c) = chunkSize" using wst by simp
  qed
  have nth: "\<forall>i<length W. W ! i = slice (normalizeText text) (int i * (chunkSize - overlap))
                          (int i * (chunkSize - overlap) + chunkSize)"
  proof (intro allI impI)
    fix i assume i: "i < length W"
    then have "0 + i * st < length (normalizeText text)"
      unfolding W_def using wst pos by (intro windows_nth_start) simp_all
    then have "slice (normalizeText text) (int (i * st)) (int (i * st) + int w)
                 = take w (drop (i * st) (normalizeText text))"
      by (intro slice_window) simp
    moreover have "W ! i = take w (drop (0 + i * st) (normalizeText text))"
      using i wst unfolding W_def by (intro windows_nth) simp_all
    moreover have "int (i * st) = int i * (chunkSize - overlap)" using wst by simp
    ultimately show "W ! i = slice (normalizeText text) (int i * (chunkSize - overlap))
                          (int i * (chunkSize - overlap) + chunkSize)"
      using wst by simp
  qed
  have "joinChunks_spec (w - st) W = drop 0 (normalizeText text)"
    unfolding W_def using wst by (intro windows_join) simp_all
  then have join: "joinChunks_spec (nat overlap) W = normalizeText text"
    using wst by simp
  show ?thesis
    using res len full nth join by (intro exI[of _ W] conjI)
qed


text \<open>
  Claim C9. For every text, every \<open>chunkSize \<ge> 1\<close> and every \<open>chunkOverlap\<close> the chunker
  returns a (finite) list of fragments: the clamped overlap lies in \<open>[0, chunkSize - 1]\<close>,
  and every iteration of the loop that does not reach the end of the text continues from
  a start that is larger by \<open>chunkSize - overlap \<ge> 1\<close>.
\<close>

theorem splitText_terminates:
  fixes chunkSize chunkOverlap :: int
  defines "overlap \<equiv> min (max chunkOverlap 0) (chunkSize - 1)"
  assumes "1 \<le> chunkSize"
  shows "(\<exists>chunks. splitText text chunkSize chunkOverlap = Some chunks)
     \<and> 0 \<le> overlap \<and> overlap \<le> chunkSize - 1
     \<and> (\<forall>normalized start chunks.
           start < int (length normalized) \<and> start + chunkSize < int (length normalized) \<longrightarrow>
             start < start + chunkSize - overlap
             \<and> splitLoop normalized chunkSize overlap start chunks
                 = splitLoop normalized chunkSize overlap (start + chunkSize - overlap)
                     (chunks @ [slice normalized start (start + chunkSize)]))"
proof -
  have ex: "\<exists>chunks. splitText text chunkSize chunkOverlap = Some chunks"
    using splitText_windows[OF assms(2), of "text" chunkOverlap] by blast
  have ov: "0 \<le> overlap" "overlap \<le> chunkSize - 1"
    using assms by (simp_all add: overlap_def)
  have step: "\<forall>normalized start chunks.
           start < int (length normalized) \<and> start + chunkSize < int (length normalized) \<longrightarrow>
             start < start + chunkSize - overlap
             \<and> splitLoop normalized chunkSize overlap start chunks
                 = splitLoop normalized chunkSize overlap (start + chunkSize - overlap)
                     (chunks @ [slice normalized start (start + chunkSize)])"
  proof (intro allI impI conjI)
    fix normalized :: jsString and start :: int and chunks :: "jsString list"
    assume a: "start < int (length normalized) \<and> start + chunkSize < int (length normalized)"
    show "start < start + chunkSize - overlap" using ov by simp
    have b: "min (start + chunkSize) (int (length normalized)) = start + chunkSize"
      using a by simp
    have c: "start + chunkSize \<noteq> int (length normalized)" using a by simp
    have d: "start < int (length normalized)" using a by simp
    show "splitLoop normalized chunkSize overlap start chunks
                 = splitLoop normalized chunkSize overlap (start + chunkSize - overlap)
                     (chunks @ [slice normalized start (start + chunkSize)])"
      by (subst splitLoop.simps) (simp only: b c d Let_def if_True if_False simp_thms)
  qed
  from ex ov step show ?thesis by blast
qed


lemma splitText_example:
  "splitText (ofAscii '' a b  c d e f g  h '') 5 2
     = Some (map ofAscii [''a b c'', '' c d '', ''d e f'', '' f g '', ''g h''])"
  by (simp add: splitText_def normalizeText_def trim_def isWhiteSpace_def ofAscii_def
        splitLoop.simps slice_def Let_def)

lemma splitText_example_clamped:
  "splitText (ofAscii ''abcdefg'') 3 7
     = Some (map ofAscii [''abc'', ''bcd'', ''cde'', ''def'', ''efg''])"
  by (simp add: splitText_def normalizeText_def trim_def isWhiteSpace_def ofAscii_def
        splitLoop.simps slice_def Let_def)

theorem splitText_sliding_window_witness:
  "(1::int) \<le> 5
   \<and> splitText (ofAscii '' a b  c d e f g  h '') 5 2
       = Some (map ofAscii [''a b c'', '' c d '', ''d e f'', '' f g '', ''g h''])
   \<and> joinChunks_spec 2 (map ofAscii [''a b c'', '' c d '', ''d e f'', '' f g '', ''g h''])
       = normalizeText (ofAscii '' a b  c d e f g  h '')"
proof -
  have h: "(1::int) \<le> 5" by simp
  obtain chunks where
    c: "splitText (ofAscii '' a b  c d e f g  h '') 5 2 = Some chunks"
    and j: "joinChunks_spec (nat (min (max 2 0) (5 - 1))) chunks
              = normalizeText (ofAscii '' a b  c d e f g  h '')"
    using splitText_sliding_window[OF h, of "ofAscii '' a b  c d e f g  h ''" 2] by blast
  have "chunks = map ofAscii [''a b c'', '' c d '', ''d e f'', '' f g '', ''g h'']"
    using c by (simp only: splitText_example option.inject)
  with j have "joinChunks_spec 2 (map ofAscii [''a b c'', '' c d '', ''d e f'', '' f g '', ''g h''])
       = normalizeText (ofAscii '' a b  c d e f g  h '')"
    by simp
  with h splitText_example show ?thesis by blast
qed

theorem splitText_terminates_witness:
  "(1::int) \<le> 3
   \<and> (\<exists>chunks. splitText (ofAscii ''abcdefg'') 3 7 = Some chunks)
   \<and> (0::int) \<le> min (max 7 0) (3 - 1) \<and> min (max 7 0) (3 - 1) \<le> (3::int) - 1
   \<and> splitText (ofAscii ''abcdefg'') 3 7
       = Some (map ofAscii [''abc'', ''bcd'', ''cde'', ''def'', ''efg''])"
proof -
  have h: "(1::int) \<le> 3" by simp
  show ?thesis
    using h splitText_terminates[OF h, of "ofAscii ''abcdefg''" 7] splitText_example_clamped
    by blast
qed

subsection \<open>The cached query embedding\<close>

lemma embedQuery_failure_keeps_cache:
  "embedQuery fetch cache input = (Inl e, cache') \<Longrightarrow> cache' = cache"
  by (auto simp: embedQuery_def Let_def split: option.splits fetchResult.splits if_splits list.splits)

lemma embedQuery_success_cached:
  "embedQuery fetch cache input = (Inr v, cache') \<Longrightarrow> cache' = cache(input \<mapsto> v)"
  by (auto simp: embedQuery_def Let_def split: option.splits fetchResult.splits if_splits list.splits)

lemma embedQuery_hit:
  "cache input = Some v \<Longrightarrow> embedQuery fetch cache input = (Inr v, cache)"
  by (simp add: embedQuery_def)

lemma embedQuery_miss_success:
  assumes "embedQuery fetch cache input = (Inr v, cache')" "cache input = None"
  shows "\<exists>r d. fetch input = Responded r \<and> resp_ok r \<and> resp_json r = Some d
             \<and> (case embeddings d of Some (first # _) \<Rightarrow> Some first | _ \<Rightarrow> embedding_field d)
                 = Some v"
proof (cases "fetch input")
  case (Rejected details)
  with assms show ?thesis by (simp add: embedQuery_def)
next
  case (Responded r)
  show ?thesis
  proof (cases "resp_ok r")
    case False
    with assms Responded show ?thesis by (simp add: embedQuery_def)
  next
    case True
    show ?thesis
    proof (cases "resp_json r")
      case None
      with assms Responded True show ?thesis by (simp add: embedQuery_def)
    next
      case (Some d)
      with assms Responded True show ?thesis
        by (cases "case embeddings d of Some (first # _) \<Rightarrow> Some first | _ \<Rightarrow> embedding_field d")
           (simp_all add: embedQuery_def)
    qed
  qed
qed

text \<open>
  Claim C10. A call of \<^verbatim>\<open>embedQuery\<close> that fails leaves the cache as it was; the
  three failures named (the connection fails, the status is not a success, a success
  response holds no vector) are failures. A call that succeeds with vector \<open>v\<close> leaves
  the cache with \<open>v\<close> stored for the input and nothing else changed, and every later call
  for that input returns \<open>v\<close> whatever the network does. The cache changes only when a
  vector was extracted from a success response.
\<close>

theorem embedQuery_cache_discipline:
  "(\<forall>e cache'. embedQuery fetch cache input = (Inl e, cache') \<longrightarrow> cache' = cache)
   \<and> (cache input = None \<and> fetch input = Rejected details \<longrightarrow>
        embedQuery fetch cache input = (Inl (ApiError (CouldNotConnect details) 503), cache))
   \<and> (cache input = None \<and> fetch input = Responded r \<and> \<not> resp_ok r \<longrightarrow>
        embedQuery fetch cache input
          = (Inl (ApiError (FailedToCreateEmbedding (resp_status r) (slice (resp_text r) 0 300))
                    (resp_status r)), cache))
   \<and> (cache input = None \<and> fetch input = Responded r \<and> resp_ok r \<and> resp_json r = Some d
        \<and> (embeddings d = None \<or> embeddings d = Some []) \<and> embedding_field d = None \<longrightarrow>
        embedQuery fetch cache input = (Inl (ApiError NoEmbeddingVector 500), cache))
   \<and> (\<forall>v cache'. embedQuery fetch cache input = (Inr v, cache') \<longrightarrow>
          cache' = cache(input \<mapsto> v)
          \<and> (\<forall>fetch'. embedQuery fetch' cache' input = (Inr v, cache')))
   \<and> (\<forall>res cache'. embedQuery fetch cache input = (res, cache') \<and> cache' \<noteq> cache \<longrightarrow>
          (\<exists>v r d. res = Inr v \<and> cache' = cache(input \<mapsto> v) \<and> cache input = None
             \<and> fetch input = Responded r \<and> resp_ok r \<and> resp_json r = Some d
             \<and> (case embeddings d of Some (first # _) \<Rightarrow> Some first | _ \<Rightarrow> embedding_field d)
                 = Some v))"
proof -
  have fail: "\<forall>e cache'. embedQuery fetch cache input = (Inl e, cache') \<longrightarrow> cache' = cache"
    using embedQuery_failure_keeps_cache by blast
  have conn: "cache input = None \<and> fetch input = Rejected details \<longrightarrow>
        embedQuery fetch cache input = (Inl (ApiError (CouldNotConnect details) 503), cache)"
    by (simp add: embedQuery_def)
  have stat: "cache input = None \<and> fetch input = Responded r \<and> \<not> resp_ok r \<longrightarrow>
        embedQuery fetch cache input
          = (Inl (ApiError (FailedToCreateEmbedding (resp_status r) (slice (resp_text r) 0 300))
                    (resp_status r)), cache)"
    by (simp add: embedQuery_def)
  have novec: "cache input = None \<and> fetch input = Responded r \<and> resp_ok r \<and> resp_json r = Some d
        \<and> (embeddings d = None \<or> embeddings d = Some []) \<and> embedding_field d = None \<longrightarrow>
        embedQuery fetch cache input = (Inl (ApiError NoEmbeddingVector 500), cache)"
    by (auto simp: embedQuery_def)
  have succ: "\<forall>v cache'. embedQuery fetch cache input = (Inr v, cache') \<longrightarrow>
          cache' = cache(input \<mapsto> v)
          \<and> (\<forall>fetch'. embedQuery fetch' cache' input = (Inr v, cache'))"
  proof (intro allI impI)
    fix v cache'
    assume a: "embedQuery fetch cache input = (Inr v, cache')"
    then have c: "cache' = cache(input \<mapsto> v)" by (rule embedQuery_success_cached)
    then have "cache' input = Some v" by simp
    then have "\<forall>fetch'. embedQuery fetch' cache' input = (Inr v, cache')"
      by (simp add: embedQuery_hit)
    with c show "cache' = cache(input \<mapsto> v)
          \<and> (\<forall>fetch'. embedQuery fetch' cache' input = (Inr v, cache'))" by blast
  qed
  have only: "\<forall>res cache'. embedQuery fetch cache input = (res, cache') \<and> cache' \<noteq> cache \<longrightarrow>
          (\<exists>v r d. res = Inr v \<and> cache' = cache(input \<mapsto> v) \<and> cache input = None
             \<and> fetch input = Responded r \<and> resp_ok r \<and> resp_json r = Some d
             \<and> (case embeddings d of Some (first # _) \<Rightarrow> Some first | _ \<Rightarrow> embedding_field d)
                 = Some v)"
  proof (intro allI impI)
    fix res cache'
    assume a: "embedQuery fetch cache input = (res, cache') \<and> cache' \<noteq> cache"
    then obtain v where v: "res = Inr v"
      using embedQuery_failure_keeps_cache[of fetch cache input _ cache'] by (cases res) auto
    with a have c: "cache' = cache(input \<mapsto> v)"
      using embedQuery_success_cached by blast
    have miss: "cache input = None"
      using a embedQuery_hit[of cache input _ fetch] by (cases "cache input") auto
    from a v have "embedQuery fetch cache input = (Inr v, cache')" by simp
    from this miss have "\<exists>r d. fetch input = Responded r \<and> resp_ok r \<and> resp_json r = Some d
             \<and> (case embeddings d of Some (first # _) \<Rightarrow> Some first | _ \<Rightarrow> embedding_field d)
                 = Some v"
      by (rule embedQuery_miss_success)
    with v c miss show "\<exists>v r d. res = Inr v \<and> cache' = cache(input \<mapsto> v) \<and> cache input = None
             \<and> fetch input = Responded r \<and> resp_ok r \<and> resp_json r = Some d
             \<and> (case embeddings d of Some (first # _) \<Rightarrow> Some first | _ \<Rightarrow> embedding_field d)
                 = Some v" by blast
  qed
  from fail conn stat novec succ only show ?thesis by (intro conjI)
qed


theorem embedQuery_cache_discipline_witness:
  "embedQuery exampleFetch Map.empty (ofAscii ''down'')
     = (Inl (ApiError (CouldNotConnect []) 503), Map.empty)
   \<and> embedQuery exampleFetch Map.empty (ofAscii ''no'')
     = (Inl (ApiError NoEmbeddingVector 500), Map.empty)
   \<and> embedQuery exampleFetch Map.empty (ofAscii ''hi'')
     = (Inr [Finite 1, Finite 0], [ofAscii ''hi'' \<mapsto> [Finite 1, Finite 0]])
   \<and> embedQuery (\<lambda>_. Rejected []) [ofAscii ''hi'' \<mapsto> [Finite 1, Finite 0]] (ofAscii ''hi'')
     = (Inr [Finite 1, Finite 0], [ofAscii ''hi'' \<mapsto> [Finite 1, Finite 0]])"
proof -
  have down: "exampleFetch (ofAscii ''down'') = Rejected []"
    by (simp add: exampleFetch_def ofAscii_def)
  have no: "exampleFetch (ofAscii ''no'') =
        Responded \<lparr>resp_ok = True, resp_status = 200, resp_text = [],
          resp_json = Some \<lparr>embeddings = None, embedding_field = None\<rparr>\<rparr>"
    by (simp add: exampleFetch_def ofAscii_def)
  have hi: "embedQuery exampleFetch Map.empty (ofAscii ''hi'')
     = (Inr [Finite 1, Finite 0], [ofAscii ''hi'' \<mapsto> [Finite 1, Finite 0]])"
    by (simp add: embedQuery_def exampleFetch_def)
  have 1: "embedQuery exampleFetch Map.empty (ofAscii ''down'')
     = (Inl (ApiError (CouldNotConnect []) 503), Map.empty)"
    using embedQuery_cache_discipline[of exampleFetch Map.empty "ofAscii ''down''" "[]",
        THEN conjunct2, THEN conjunct1] down
    by simp
  have 2: "embedQuery exampleFetch Map.empty (ofAscii ''no'')
     = (Inl (ApiError NoEmbeddingVector 500), Map.empty)"
    using embedQuery_cache_discipline[of exampleFetch Map.empty "ofAscii ''no''" _
        "\<lparr>resp_ok = True, resp_status = 200, resp_text = [],
          resp_json = Some \<lparr>embeddings = None, embedding_field = None\<rparr>\<rparr>"
        "\<lparr>embeddings = None, embedding_field = None\<rparr>",
        THEN conjunct2, THEN conjunct2, THEN conjunct2, THEN conjunct1] no
    by simp
  have 3: "embedQuery (\<lambda>_. Rejected []) [ofAscii ''hi'' \<mapsto> [Finite 1, Finite 0]] (ofAscii ''hi'')
     = (Inr [Finite 1, Finite 0], [ofAscii ''hi'' \<mapsto> [Finite 1, Finite 0]])"
    using embedQuery_cache_discipline[of exampleFetch Map.empty "ofAscii ''hi''",
        THEN conjunct2, THEN conjunct2, THEN conjunct2, THEN conjunct2, THEN conjunct1] hi
    by blast
  from 1 2 hi 3 show ?thesis by (intro conjI)
qed

subsection \<open>The index store\<close>

lemma indexToJson_shape: "isLocalIndex_spec (indexToJson index)"
  by (simp add: isLocalIndex_spec_def indexToJson_def field_def ofAscii_def isString_def
      isNumber_def list_all_iff isLocalIndexItem_spec_def itemToJson_def isNumberArray_def
      isMetadata_spec_def)

lemma reparsedNumber_plain: "reparsedNumber x = JNumber x \<longleftrightarrow> plainNumber x"
  by (cases x) (simp_all add: reparsedNumber_def plainNumber_def)

lemma reparsed_numbers:
  "map reparsed (map JNumber xs) = map JNumber xs \<longleftrightarrow> list_all plainNumber xs"
  by (induction xs) (simp_all add: reparsedNumber_plain)

lemma reparsed_itemToJson:
  "reparsed (itemToJson it) = itemToJson it
     \<longleftrightarrow> list_all plainNumber (embedding it) \<and> plainNumber (md_chunk (metadata it))"
  using reparsed_numbers[of "embedding it"]
  by (simp add: itemToJson_def reparsedNumber_plain)

lemma reparsed_items:
  "map reparsed (map itemToJson its) = map itemToJson its
     \<longleftrightarrow> list_all (\<lambda>it. list_all plainNumber (embedding it)
                          \<and> plainNumber (md_chunk (metadata it))) its"
  by (induction its) (simp_all add: reparsed_itemToJson)

lemma reparsed_indexToJson:
  "reparsed (indexToJson index) = indexToJson index \<longleftrightarrow> plainIndex index"
  using reparsed_items[of "items index"]
  by (simp add: indexToJson_def plainIndex_def reparsedNumber_plain)

lemma itemToJson_inj: "itemToJson a = itemToJson b \<Longrightarrow> a = b"
proof -
  assume eq: "itemToJson a = itemToJson b"
  have "map JNumber (embedding a) = map JNumber (embedding b)"
    using eq by (simp add: itemToJson_def)
  then have e: "embedding a = embedding b"
    by (simp add: inj_map_eq_map inj_def)
  have "md_text (metadata a) = md_text (metadata b)"
       "md_source (metadata a) = md_source (metadata b)"
       "md_chunk (metadata a) = md_chunk (metadata b)"
    using eq by (simp_all add: itemToJson_def)
  then have m: "metadata a = metadata b" by simp
  have "item_id a = item_id b" using eq by (simp add: itemToJson_def)
  then show "a = b" using e m by simp
qed

lemma indexToJson_inj: "indexToJson a = indexToJson b \<Longrightarrow> a = b"
proof -
  assume eq: "indexToJson a = indexToJson b"
  have "map itemToJson (items a) = map itemToJson (items b)"
    using eq by (simp add: indexToJson_def)
  then have "items a = items b"
    using itemToJson_inj by (simp add: inj_map_eq_map inj_def)
  moreover have "embeddingModel a = embeddingModel b" "dimension a = dimension b"
      "createdAt a = createdAt b"
    using eq by (simp_all add: indexToJson_def)
  ultimately show "a = b" by simp
qed

lemmas store_defs =
  readLocalIndex_def readFile_def JSON_parse_def writeLocalIndex_def writeLocalIndex_states_def
  mkdir_folder_def openTruncate_def writeAll_def artifact_def artifactText_def usable_def




lemma writeLocalIndex_usable:
  assumes "usable fs"
  shows "fst (writeLocalIndex fs index) = Inr ()"
    and "readLocalIndex (snd (writeLocalIndex fs index)) = Inr (reparsed (indexToJson index))"
    and "\<exists>s\<in>set (writeLocalIndex_states fs index).
           artifactText s = Some Incomplete \<and> readLocalIndex s = Inl SyntaxError"
  using assms
  by (auto simp: store_defs JSON_stringify_def
        split: folderState.splits fileState.splits if_splits)

lemma writeLocalIndex_success:
  assumes "fst (writeLocalIndex fs index) = Inr ()"
  shows "\<exists>w entry. dataFolder (snd (writeLocalIndex fs index)) = Folder True w entry"
    and "artifactText (snd (writeLocalIndex fs index)) = Some (JSON_stringify (indexToJson index))"
    and "\<exists>s\<in>set (writeLocalIndex_states fs index). artifactText s = Some Incomplete"
  using assms
  by (auto simp: store_defs split: folderState.splits fileState.splits if_splits)

lemma writeLocalIndex_states_ends:
  "hd (writeLocalIndex_states fs index) = fs"
  "last (writeLocalIndex_states fs index) = snd (writeLocalIndex fs index)"
  by (auto simp: store_defs split: folderState.splits fileState.splits if_splits)

lemma writeLocalIndex_states_artifact:
  "s \<in> set (writeLocalIndex_states fs index) \<Longrightarrow>
     docsFolder s = docsFolder fs
     \<and> (artifactText s = artifactText fs \<or> artifactText s = Some Incomplete
          \<or> artifactText s = Some (JSON_stringify (indexToJson index)))"
  by (auto simp: store_defs split: folderState.splits fileState.splits if_splits)

text \<open>
  Claim C6, as stated: at every point during a save a reader finds the previous complete
  artifact or the new complete one. It fails: the code writes the artifact in place, and
  in the third of the states of a save over the example index the artifact is
  incomplete; \<^verbatim>\<open>readLocalIndex\<close> fails there, while it returns the previous index before
  the save and the new index after it.
\<close>

theorem writeLocalIndex_atomic_counterexample:
  "readLocalIndex exampleFs = Inr (indexToJson exampleIndex)
   \<and> readLocalIndex (snd (writeLocalIndex exampleFs exampleIndex2)) = Inr (indexToJson exampleIndex2)
   \<and> writeLocalIndex_states exampleFs exampleIndex2 ! 2
       = exampleFs\<lparr>dataFolder := Folder True True (RegularFile True True Incomplete)\<rparr>
   \<and> readLocalIndex (writeLocalIndex_states exampleFs exampleIndex2 ! 2) = Inl SyntaxError"
proof -
  have p: "reparsed (indexToJson exampleIndex) = indexToJson exampleIndex"
          "reparsed (indexToJson exampleIndex2) = indexToJson exampleIndex2"
    by (simp_all add: reparsed_indexToJson plainIndex_def plainNumber_def exampleIndex_def
        exampleIndex2_def mkItem_def ofNat_def)
  have 1: "readLocalIndex exampleFs = Inr (indexToJson exampleIndex)"
    by (simp add: readLocalIndex_def readFile_def JSON_parse_def JSON_stringify_def
        exampleFs_def p)
  have 2: "readLocalIndex (snd (writeLocalIndex exampleFs exampleIndex2))
             = Inr (indexToJson exampleIndex2)"
    by (simp add: store_defs JSON_stringify_def exampleFs_def p)
  have 3: "writeLocalIndex_states exampleFs exampleIndex2 ! 2
       = exampleFs\<lparr>dataFolder := Folder True True (RegularFile True True Incomplete)\<rparr>"
    by (simp add: store_defs exampleFs_def)
  have 4: "readLocalIndex (writeLocalIndex_states exampleFs exampleIndex2 ! 2) = Inl SyntaxError"
    unfolding 3 by (simp add: readLocalIndex_def readFile_def JSON_parse_def)
  from 1 2 3 4 show ?thesis by (intro conjI)
qed

text \<open>
  Claim C6, amended. \<^verbatim>\<open>writeLocalIndex\<close> creates the folder of the artifact and writes
  the artifact in place. In a file system where the artifact can be saved and loaded the
  save completes, loading then returns the new index as JSON prints it, and during the
  save there is a state in which the artifact is incomplete: a reader at that point gets
  a \<^verbatim>\<open>SyntaxError\<close>. Whenever the save has completed, the folder exists, the artifact is
  the text of the new index, and the incomplete artifact did occur. The states of a save
  start with the state before it and end with the state it leaves; in every one of them
  the text of the artifact is the previous one, an incomplete one or the new one.
\<close>

theorem writeLocalIndex_in_place:
  "(usable fs \<longrightarrow>
       fst (writeLocalIndex fs index) = Inr ()
     \<and> readLocalIndex (snd (writeLocalIndex fs index)) = Inr (reparsed (indexToJson index))
     \<and> (\<exists>s\<in>set (writeLocalIndex_states fs index).
           artifactText s = Some Incomplete \<and> readLocalIndex s = Inl SyntaxError))
   \<and> (fst (writeLocalIndex fs index) = Inr () \<longrightarrow>
       (\<exists>w entry. dataFolder (snd (writeLocalIndex fs index)) = Folder True w entry)
     \<and> artifactText (snd (writeLocalIndex fs index)) = Some (JSON_stringify (indexToJson index))
     \<and> (\<exists>s\<in>set (writeLocalIndex_states fs index). artifactText s = Some Incomplete))
   \<and> hd (writeLocalIndex_states fs index) = fs
   \<and> last (writeLocalIndex_states fs index) = snd (writeLocalIndex fs index)
   \<and> (\<forall>s\<in>set (writeLocalIndex_states fs index).
         docsFolder s = docsFolder fs
         \<and> (artifactText s = artifactText fs \<or> artifactText s = Some Incomplete
              \<or> artifactText s = Some (JSON_stringify (indexToJson index))))"
  using writeLocalIndex_usable[of fs index] writeLocalIndex_success[of fs index]
    writeLocalIndex_states_ends[of fs index] writeLocalIndex_states_artifact[of _ fs index]
  by blast

theorem writeLocalIndex_in_place_witness:
  "usable exampleFs
   \<and> fst (writeLocalIndex exampleFs exampleIndex2) = Inr ()
   \<and> artifactText (snd (writeLocalIndex exampleFs exampleIndex2))
       = Some (JSON_stringify (indexToJson exampleIndex2))
   \<and> readLocalIndex (snd (writeLocalIndex exampleFs exampleIndex2))
       = Inr (reparsed (indexToJson exampleIndex2))
   \<and> length (writeLocalIndex_states exampleFs exampleIndex2) = 4"
proof -
  have u: "usable exampleFs" by (simp add: usable_def exampleFs_def)
  note t = writeLocalIndex_in_place[of exampleFs exampleIndex2]
  have 1: "fst (writeLocalIndex exampleFs exampleIndex2) = Inr ()"
    using t[THEN conjunct1] u by blast
  have 2: "readLocalIndex (snd (writeLocalIndex exampleFs exampleIndex2))
       = Inr (reparsed (indexToJson exampleIndex2))"
    using t[THEN conjunct1] u by blast
  have 3: "artifactText (snd (writeLocalIndex exampleFs exampleIndex2))
       = Some (JSON_stringify (indexToJson exampleIndex2))"
    using t[THEN conjunct2, THEN conjunct1] 1 by blast
  have 4: "length (writeLocalIndex_states exampleFs exampleIndex2) = 4"
    by (simp add: store_defs exampleFs_def)
  from u 1 3 2 4 show ?thesis by (intro conjI)
qed

text \<open>
  Claim C5, as stated for every index: loading after saving returns the index saved. It
  fails for an index with a number that JSON does not print as it is: \<^verbatim>\<open>NaN\<close> and the
  infinities are printed as \<^verbatim>\<open>null\<close>, the negative zero as \<^verbatim>\<open>0\<close>. The embedding
  \<open>[-0, NaN]\<close> is loaded as \<open>[0, null]\<close>.
\<close>

theorem load_after_save_counterexample:
  "fst (writeLocalIndex emptyFs unprintableIndex) = Inr ()
   \<and> readLocalIndex (snd (writeLocalIndex emptyFs unprintableIndex))
       = Inr (JObject
           [(ofAscii ''embeddingModel'', JString []),
            (ofAscii ''dimension'', JNumber (Finite 2)),
            (ofAscii ''createdAt'', JString []),
            (ofAscii ''items'',
               JArray [JObject
                 [(ofAscii ''id'', JString []),
                  (ofAscii ''embedding'', JArray [JNumber (Finite 0), JNull]),
                  (ofAscii ''metadata'',
                     JObject [(ofAscii ''text'', JString []),
                              (ofAscii ''source'', JString []),
                              (ofAscii ''chunk'', JNumber (Finite 0))])]])])
   \<and> readLocalIndex (snd (writeLocalIndex emptyFs unprintableIndex))
       \<noteq> Inr (indexToJson unprintableIndex)"
  by (simp add: store_defs JSON_stringify_def emptyFs_def unprintableIndex_def mkItem_def
        indexToJson_def itemToJson_def reparsedNumber_def ofNat_def)

text \<open>
  Claim C5, amended. In a file system where the artifact can be saved and loaded, the
  save completes and loading after it returns the index saved, field by field, exactly
  when every number of the index (its dimension, every component of every embedding,
  every chunk number) is finite and is not the negative zero; the value returned is the
  value of no other index.
\<close>

theorem load_after_save:
  assumes "usable fs"
  shows "fst (writeLocalIndex fs index) = Inr ()
     \<and> (readLocalIndex (snd (writeLocalIndex fs index)) = Inr (indexToJson index)
          \<longleftrightarrow> plainIndex index)
     \<and> (\<forall>index'. indexToJson index' = indexToJson index \<longrightarrow> index' = index)"
proof -
  have 1: "fst (writeLocalIndex fs index) = Inr ()"
    using assms by (rule writeLocalIndex_usable)
  have "readLocalIndex (snd (writeLocalIndex fs index)) = Inr (reparsed (indexToJson index))"
    using assms by (rule writeLocalIndex_usable)
  then have 2: "readLocalIndex (snd (writeLocalIndex fs index)) = Inr (indexToJson index)
          \<longleftrightarrow> plainIndex index"
    by (simp add: reparsed_indexToJson)
  have 3: "\<forall>index'. indexToJson index' = indexToJson index \<longrightarrow> index' = index"
    using indexToJson_inj by blast
  from 1 2 3 show ?thesis by (intro conjI)
qed

theorem load_after_save_witness:
  "usable emptyFs \<and> plainIndex exampleIndex
   \<and> fst (writeLocalIndex emptyFs exampleIndex) = Inr ()
   \<and> readLocalIndex (snd (writeLocalIndex emptyFs exampleIndex)) = Inr (indexToJson exampleIndex)"
proof -
  have u: "usable emptyFs" by (simp add: usable_def emptyFs_def)
  have p: "plainIndex exampleIndex"
    by (simp add: plainIndex_def plainNumber_def exampleIndex_def mkItem_def ofNat_def)
  note t = load_after_save[OF u, of exampleIndex]
  have 1: "fst (writeLocalIndex emptyFs exampleIndex) = Inr ()"
    by (rule t[THEN conjunct1])
  have 2: "readLocalIndex (snd (writeLocalIndex emptyFs exampleIndex)) = Inr (indexToJson exampleIndex)"
    using t[THEN conjunct2, THEN conjunct1] p by blast
  from u p 1 2 show ?thesis by (intro conjI)
qed

subsection \<open>The ingestion run\<close>

lemma processFiles_no_chunks:
  "\<forall>file\<in>set files. \<exists>t. documentText env file = Inr t
        \<and> splitText (case t of None \<Rightarrow> [] | Some x \<Rightarrow> x) CHUNK_SIZE CHUNK_OVERLAP = Some []
   \<Longrightarrow> processFiles env files pushed = Some (Inr pushed)"
proof (induction files)
  case Nil
  show ?case by simp
next
  case (Cons f rest)
  then obtain t where t: "documentText env f = Inr t"
      "splitText (case t of None \<Rightarrow> [] | Some x \<Rightarrow> x) CHUNK_SIZE CHUNK_OVERLAP = Some []"
    by auto
  have "processFiles env rest pushed = Some (Inr pushed)"
    using Cons by simp
  then show ?case using t by simp
qed

lemma run_success_nonempty:
  assumes "run env fs = Some (Inr (), fs')"
  shows "\<exists>index. items index \<noteq> []
           \<and> artifactText fs' = Some (JSON_stringify (indexToJson index))"
proof (cases "pdfFilesFound env")
  case (Inl e)
  with assms show ?thesis by (simp add: run_def Let_def)
next
  case (Inr pdfFiles)
  show ?thesis
  proof (cases "pdfFiles = [] \<or> \<not> pdfParserLoads env")
    case True
    with assms Inr show ?thesis by (auto simp: run_def Let_def split: if_splits)
  next
    case False
    show ?thesis
    proof (cases "processFiles env pdfFiles []")
      case None
      with assms Inr False show ?thesis by (simp add: run_def Let_def)
    next
      case (Some res)
      show ?thesis
      proof (cases res)
        case (Inl e)
        with assms Inr False Some show ?thesis by (simp add: run_def Let_def)
      next
        case r: (Inr pushed)
        show ?thesis
        proof (cases pushed)
          case Nil
          with assms Inr False Some r show ?thesis by (simp add: run_def Let_def)
        next
          case (Cons first more)
          let ?index = "\<lparr>embeddingModel = OLLAMA_EMBED_MODEL env,
                         dimension = ofNat (length (embedding first)),
                         createdAt = nowISO env, items = pushed\<rparr>"
          have "run env fs = Some (writeLocalIndex (mkdir_DOCS_DIR fs) ?index)"
            using Inr False Some r Cons by (simp add: run_def Let_def)
          with assms have w: "writeLocalIndex (mkdir_DOCS_DIR fs) ?index = (Inr (), fs')"
            by simp
          then have "fst (writeLocalIndex (mkdir_DOCS_DIR fs) ?index) = Inr ()" by simp
          then have "artifactText (snd (writeLocalIndex (mkdir_DOCS_DIR fs) ?index))
                       = Some (JSON_stringify (indexToJson ?index))"
            by (rule writeLocalIndex_success)
          then have "artifactText fs' = Some (JSON_stringify (indexToJson ?index))"
            using w by simp
          moreover have "items ?index \<noteq> []" using Cons by simp
          ultimately show ?thesis by blast
        qed
      qed
    qed
  qed
qed

text \<open>
  Claim C8. When the paths are found, every document is read and parsed and none gives a
  fragment (and \<^verbatim>\<open>pdf-parse\<close> loads, if there is a document at all), the run fails:
  with \<^verbatim>\<open>No PDF files found\<close> when there is no document, with
  \<^verbatim>\<open>No text chunks were extracted\<close> otherwise, the two errors of the condition
  EmptyCorpus. It leaves the file system as it was but for the folder \<^verbatim>\<open>docs\<close>: the
  artifact is not written. Whenever a run succeeds, the artifact it leaves is the text of
  an index that has an item.
\<close>

theorem run_empty_corpus:
  assumes "pdfFilesFound env = Inr pdfFiles"
    and "pdfFiles \<noteq> [] \<longrightarrow> pdfParserLoads env"
    and "\<forall>file\<in>set pdfFiles. \<exists>t. documentText env file = Inr t
           \<and> splitText (case t of None \<Rightarrow> [] | Some x \<Rightarrow> x) CHUNK_SIZE CHUNK_OVERLAP = Some []"
  shows "run env fs = Some (Inl (Error (if pdfFiles = [] then NoPdfFilesFound else NoTextChunks)),
                            fs\<lparr>docsFolder := True\<rparr>)
     \<and> isEmptyCorpus_spec (Error (if pdfFiles = [] then NoPdfFilesFound else NoTextChunks))
     \<and> artifact (fs\<lparr>docsFolder := True\<rparr>) = artifact fs
     \<and> (\<forall>env' fs0 fs'. run env' fs0 = Some (Inr (), fs') \<longrightarrow>
           (\<exists>index. items index \<noteq> []
              \<and> artifactText fs' = Some (JSON_stringify (indexToJson index))))"
proof -
  have "processFiles env pdfFiles [] = Some (Inr [])"
    using assms(3) by (rule processFiles_no_chunks)
  then have 1: "run env fs = Some (Inl (Error (if pdfFiles = [] then NoPdfFilesFound else NoTextChunks)),
                            fs\<lparr>docsFolder := True\<rparr>)"
    using assms(1,2) by (simp add: run_def Let_def mkdir_DOCS_DIR_def)
  have 2: "isEmptyCorpus_spec (Error (if pdfFiles = [] then NoPdfFilesFound else NoTextChunks))"
    by (simp add: isEmptyCorpus_spec_def)
  have 3: "artifact (fs\<lparr>docsFolder := True\<rparr>) = artifact fs" by (simp add: artifact_def)
  have 4: "\<forall>env' fs0 fs'. run env' fs0 = Some (Inr (), fs') \<longrightarrow>
           (\<exists>index. items index \<noteq> []
              \<and> artifactText fs' = Some (JSON_stringify (indexToJson index)))"
    using run_success_nonempty by blast
  from 1 2 3 4 show ?thesis by (intro conjI)
qed

lemma splitText_blank:
  "splitText (ofAscii ''  '') CHUNK_SIZE CHUNK_OVERLAP = Some []"
  "splitText [] CHUNK_SIZE CHUNK_OVERLAP = Some []"
  by (simp_all add: splitText_def normalizeText_def trim_def isWhiteSpace_def ofAscii_def)

theorem run_empty_corpus_witness:
  "run (exampleEnv []) emptyFs
     = Some (Inl (Error NoPdfFilesFound), emptyFs\<lparr>docsFolder := True\<rparr>)
   \<and> run (exampleEnv [ofAscii ''docs/b.pdf'', ofAscii ''docs/c.pdf'']) emptyFs
     = Some (Inl (Error NoTextChunks), emptyFs\<lparr>docsFolder := True\<rparr>)
   \<and> artifact (emptyFs\<lparr>docsFolder := True\<rparr>) = NoFile"
proof -
  have 1: "run (exampleEnv []) emptyFs
     = Some (Inl (Error NoPdfFilesFound), emptyFs\<lparr>docsFolder := True\<rparr>)"
    using run_empty_corpus[of "exampleEnv []" "[]" emptyFs, THEN conjunct1]
    by (simp add: exampleEnv_def)
  have b: "ofAscii ''docs/b.pdf'' \<noteq> ofAscii ''docs/a.pdf''"
          "ofAscii ''docs/c.pdf'' \<noteq> ofAscii ''docs/a.pdf''"
          "ofAscii ''docs/c.pdf'' \<noteq> ofAscii ''docs/b.pdf''"
    by (simp_all add: ofAscii_def)
  have 2: "run (exampleEnv [ofAscii ''docs/b.pdf'', ofAscii ''docs/c.pdf'']) emptyFs
     = Some (Inl (Error NoTextChunks), emptyFs\<lparr>docsFolder := True\<rparr>)"
    using run_empty_corpus[of "exampleEnv [ofAscii ''docs/b.pdf'', ofAscii ''docs/c.pdf'']"
            "[ofAscii ''docs/b.pdf'', ofAscii ''docs/c.pdf'']" emptyFs, THEN conjunct1]
    by (simp add: exampleEnv_def b splitText_blank)
  have 3: "artifact (emptyFs\<lparr>docsFolder := True\<rparr>) = NoFile"
    by (simp add: emptyFs_def artifact_def)
  from 1 2 3 show ?thesis by (intro conjI)
qed

end
